theory Spec2Isabelle
  imports Complex_Main
begin

section \<open>The clip rendering worker (processing/worker.py)\<close>

text \<open>
  The worker \<^verbatim>\<open>ProcessThread\<close> is embedded shallowly. Python floats are read as
  exact real numbers: the development is about the arithmetic the code writes down, and
  every concrete input used below is chosen far from a rounding boundary of binary
  floating point. Status messages and logging are left out; the overlay geometry and the
  filter strings are not modelled beyond the exceptions their construction can raise.
  Python's \<^verbatim>\<open>int(x)\<close> truncates towards zero.
\<close>

definition py_int :: "real \<Rightarrow> int" where
  "py_int x = (if 0 \<le> x then \<lfloor>x\<rfloor> else \<lceil>x\<rceil>)"

subsection \<open>Construction of a job (\<^verbatim>\<open>__init__\<close>)\<close>

text \<open>The constructor's arguments that the planning and the pipeline read.\<close>

record job_args =
  arg_start_time :: real
  arg_end_time :: real
  arg_speed_factor :: real
  arg_quality_level :: int
  arg_original_total_duration :: real
  arg_disable_fades :: bool
  arg_intro_still_sec :: real
  arg_intro_from_midpoint :: bool

record job =
  start_time :: real
  end_time :: real
  speed_factor :: real
  quality_level :: int
  keep_highest_res :: bool
  lower_quality :: bool
  target_mb :: "real option"
  original_total_duration :: real
  disable_fades :: bool
  intro_from_midpoint :: bool
  intro_still_sec :: real

datatype py_exn = ZeroDivisionError

text \<open>Lines 34-45: the size target of a quality tier.\<close>

definition tier_target_mb :: "int \<Rightarrow> real option" where
  "tier_target_mb q =
     (if q \<ge> 4 then None
      else if q = 3 then Some 90
      else if q = 2 then Some 45
      else if q = 1 then Some 25
      else Some 15)"

text \<open>
  Lines 68-73: \<^verbatim>\<open>float(intro_still_sec or 0.0)\<close>, then forced to zero unless the
  still is taken from the midpoint and its length is positive.
\<close>

definition effective_intro_still_sec :: "bool \<Rightarrow> real \<Rightarrow> real" where
  "effective_intro_still_sec from_midpoint sec =
     (if \<not> from_midpoint \<or> sec \<le> 0 then 0 else sec)"

text \<open>
  Line 74 divides by the speed factor whenever it differs from 1.0, so a speed factor of
  zero makes the constructor raise.
\<close>

definition init :: "job_args \<Rightarrow> py_exn + job" where
  "init a =
     (if arg_speed_factor a = 0 then Inl ZeroDivisionError
      else Inr \<lparr> start_time = arg_start_time a,
                 end_time = arg_end_time a,
                 speed_factor = arg_speed_factor a,
                 quality_level = arg_quality_level a,
                 keep_highest_res = (arg_quality_level a \<ge> 4),
                 lower_quality = (arg_quality_level a \<le> 0),
                 target_mb = tier_target_mb (arg_quality_level a),
                 original_total_duration = arg_original_total_duration a,
                 disable_fades = arg_disable_fades a,
                 intro_from_midpoint = arg_intro_from_midpoint a,
                 intro_still_sec =
                   effective_intro_still_sec (arg_intro_from_midpoint a) (arg_intro_still_sec a) \<rparr>)"

subsection \<open>Trim window (lines 128-192)\<close>

record trim_window =
  in_ss :: real
  in_t :: real
  vfade_in_d :: real
  vfade_out_d :: real
  vfade_out_st :: real
  output_clip_duration :: real

definition FADE_DUR :: real where "FADE_DUR = 3 / 2"
definition EPS :: real where "EPS = 1 / 100"

definition plan_trim :: "job \<Rightarrow> trim_window" where
  "plan_trim j =
     (let user_start = start_time j;
          user_end = end_time j;
          total_orig = original_total_duration j
      in if disable_fades j then
           \<lparr> in_ss = user_start, in_t = user_end - user_start,
             vfade_in_d = 0, vfade_out_d = 0, vfade_out_st = 0,
             output_clip_duration = user_end - user_start \<rparr>
         else
           let ss = (if user_start < FADE_DUR - EPS then user_start else user_start - FADE_DUR);
               fin = (if user_start < FADE_DUR - EPS then 0 else FADE_DUR);
               near_end = (total_orig > 0 \<and> user_end > total_orig - FADE_DUR + EPS);
               adj_end = (if near_end then total_orig else user_end + FADE_DUR);
               fout = (if near_end then 0 else FADE_DUR);
               t = max 0 (adj_end - ss)
           in \<lparr> in_ss = ss, in_t = t,
                vfade_in_d = fin, vfade_out_d = fout,
                vfade_out_st = (if fout > 0 then max 0 (t - fout) else t),
                output_clip_duration = t \<rparr>)"

text \<open>
  Lines 185-189: the output-side durations are divided by the speed factor when it is
  not 1.0; the seek start and length stay in source time.
\<close>

definition by_speed :: "real \<Rightarrow> real \<Rightarrow> real" where
  "by_speed sf x = (if sf \<noteq> 1 then x / sf else x)"

definition speed_correct :: "real \<Rightarrow> trim_window \<Rightarrow> trim_window" where
  "speed_correct sf w =
     w \<lparr> output_clip_duration := by_speed sf (output_clip_duration w),
         vfade_in_d := by_speed sf (vfade_in_d w),
         vfade_out_d := by_speed sf (vfade_out_d w),
         vfade_out_st := by_speed sf (vfade_out_st w) \<rparr>"

text \<open>Line 192: the clip duration used by everything that follows.\<close>

definition duration_corrected :: "job \<Rightarrow> real" where
  "duration_corrected j =
     max 0 (output_clip_duration (speed_correct (speed_factor j) (plan_trim j)))"

text \<open>Lines 200-205.\<close>

definition intro_len_for_size :: "job \<Rightarrow> real" where
  "intro_len_for_size j =
     (if \<not> disable_fades j \<and> intro_from_midpoint j \<and> intro_still_sec j > 0
      then max 0 (intro_still_sec j) else 0)"

definition effective_duration :: "job \<Rightarrow> real" where
  "effective_duration j = duration_corrected j + intro_len_for_size j"

subsection \<open>The environment of one run\<close>

text \<open>
  Everything \<^verbatim>\<open>run\<close> gets from outside is a field of the environment: the size of
  the source file (\<open>None\<close> when \<^verbatim>\<open>os.path.getsize\<close> raises), the result of
  \<^verbatim>\<open>_probe_audio_kbps\<close>, an exception raised while the video filter is built
  (lines 268-455, for example \<^verbatim>\<open>int\<close> on a malformed resolution), an exception raised
  while the output directory is prepared (lines 472-481), the three encoder processes
  (\<open>None\<close> when \<^verbatim>\<open>Popen\<close> raises), whether \<^verbatim>\<open>shutil.move\<close> and the writing of the
  concat list succeed, and the files present before the run. The text of an exception
  is kept only as a string inside the failure message. The output path is the first
  free name \<^verbatim>\<open>Fortnite-Video-i.mp4\<close>; the temporary paths are told apart by their
  prefixes, and a pass log is named by the text that replaces \<^verbatim>\<open>.log\<close> in
  \<^verbatim>\<open>temp_log_path\<close>. Removing a file that exists is taken to succeed.

  A process is its output lines, its return code and whether it left its output file. A
  line is \<open>Some t\<close> when it matches \<^verbatim>\<open>time=(\S+)\<close> and
  \<^verbatim>\<open>_parse_time_to_seconds\<close> gives \<open>t\<close>, and \<open>None\<close> when it does not match.
\<close>

datatype path = CoreTmp | IntroTmp | ConcatListTmp | PassLog string | OutputFile

datatype stage = CORE | INTRO | CONCAT

datatype job_result = Success path | Failure string

record proc =
  out_lines :: "real option list"
  returncode :: int
  writes_output :: bool

record env =
  getsize :: "nat option"
  probe_audio_kbps :: "nat option"
  filter_exn :: "string option"
  output_exn :: "string option"
  popen_core :: "proc option"
  move_ok :: bool
  popen_intro :: "proc option"
  write_concat_ok :: bool
  popen_concat :: "proc option"
  files_before :: "path set"

subsection \<open>Bitrate budget (lines 199-267)\<close>

datatype estimate = Bitrate int | Finished string | Raised string

text \<open>Lines 254-264, the tiers with a fixed size target.\<close>

definition tiered_estimate :: "job \<Rightarrow> real \<Rightarrow> estimate" where
  "tiered_estimate j eff =
     (let t_mb = (case target_mb j of Some m \<Rightarrow> m | None \<Rightarrow> 52);
          target_file_size_bits = t_mb * 8 * 1024 * 1024
      in if eff \<le> 0 then Finished ''Selected video duration is zero.''
         else
           let audio_bits = 128 * 1024 * eff;
               video_bits = target_file_size_bits - audio_bits
           in if video_bits < 0
              then Finished ''Video duration is too short for the target file size.''
              else Bitrate (py_int (video_bits / (1024 * eff))))"

text \<open>
  Lines 208-252, matching the size of the source. When \<^verbatim>\<open>getsize\<close> raises, the
  handler of the inner \<^verbatim>\<open>try\<close> computes a 52 MB budget without the check for a zero
  duration, so its division can raise in turn.
\<close>

definition match_source_estimate :: "job \<Rightarrow> env \<Rightarrow> real \<Rightarrow> estimate" where
  "match_source_estimate j e eff =
     (case getsize e of
        None \<Rightarrow>
          let t_mb = (case target_mb j of Some m \<Rightarrow> m | None \<Rightarrow> 52);
              target_file_size_bits = t_mb * 8 * 1024 * 1024;
              audio_bits = 128 * 1024 * eff;
              video_bits = target_file_size_bits - audio_bits
          in if video_bits < 0
             then Finished ''Video duration is too short for the target file size.''
             else if 1024 * eff = 0 then Raised ''float division by zero''
             else Bitrate (py_int (video_bits / (1024 * eff)))
      | Some src_bytes \<Rightarrow>
          let target_file_size_bits = real (max 1 src_bytes) * 8;
              audio_kbps = (case probe_audio_kbps e of
                              Some p \<Rightarrow> if p \<noteq> 0 then p else 128
                            | None \<Rightarrow> 128)
          in if eff \<le> 0 then Finished ''Selected video duration is zero.''
             else
               let audio_bits = real audio_kbps * 1024 * eff;
                   video_bits = target_file_size_bits - audio_bits;
                   min_video_kbps = 300
               in if video_bits \<le> 0 then Bitrate min_video_kbps
                  else Bitrate (max min_video_kbps (py_int (video_bits / (1024 * eff)))))"

definition estimate_bitrate :: "job \<Rightarrow> env \<Rightarrow> estimate" where
  "estimate_bitrate j e =
     (if keep_highest_res j then match_source_estimate j e (effective_duration j)
      else tiered_estimate j (effective_duration j))"

subsection \<open>Audio tempo chain (lines 456-471)\<close>

text \<open>
  The two \<^verbatim>\<open>while\<close> loops append to the chain and rescale \<open>s\<close>. Halving
  terminates for every real; doubling runs forever when \<open>s\<close> is not positive, so it
  returns an option.
\<close>

function halve_loop :: "real list \<Rightarrow> real \<Rightarrow> real list" where
  "halve_loop chain s = (if s > 2 then halve_loop (chain @ [2]) (s / 2) else chain @ [s])"
  by pat_completeness auto
termination
proof (relation "measure (\<lambda>(chain, s). nat \<lceil>s\<rceil>)")
  show "wf (measure (\<lambda>(chain, s). nat \<lceil>s\<rceil>))" by simp
next
  fix chain :: "real list" and s :: real
  assume "2 < s"
  then have "s / 2 \<le> s - 1" by simp
  then have "\<lceil>s / 2\<rceil> \<le> \<lceil>s - 1\<rceil>" by (rule ceiling_mono)
  moreover have "0 < \<lceil>s\<rceil>" using \<open>2 < s\<close> by (simp add: less_ceiling_iff)
  ultimately show "((chain @ [2], s / 2), (chain, s)) \<in> measure (\<lambda>(chain, s). nat \<lceil>s\<rceil>)"
    by simp
qed

declare halve_loop.simps [simp del]

partial_function (option) double_loop :: "real list \<Rightarrow> real \<Rightarrow> real list option" where
  "double_loop chain s =
     (if s < 1 / 2 then double_loop (chain @ [1 / 2]) (s / (1 / 2)) else Some (chain @ [s]))"

declare double_loop.simps [code]

text \<open>
  \<^verbatim>\<open>round(f, 3)\<close>: to the nearest multiple of one thousandth, a tie going to the even
  one.
\<close>

definition round_half_even :: "real \<Rightarrow> int" where
  "round_half_even x =
     (let fl = \<lfloor>x\<rfloor>; d = x - of_int fl
      in if d < 1 / 2 then fl
         else if d > 1 / 2 then fl + 1
         else if even fl then fl else fl + 1)"

definition py_round3 :: "real \<Rightarrow> real" where
  "py_round3 f = of_int (round_half_even (f * 1000)) / 1000"

definition tempo_element :: "real \<Rightarrow> real" where
  "tempo_element f = min 2 (max (1 / 2) (py_round3 f))"

definition audio_tempo_chain :: "real \<Rightarrow> real list option" where
  "audio_tempo_chain speed =
     map_option (\<lambda>chain. map tempo_element (filter (\<lambda>f. \<bar>f - 1\<bar> > 1 / 1000) chain))
       (if speed \<ge> 1 then Some (halve_loop [] speed) else double_loop [] speed)"

text \<open>The factors of the \<^verbatim>\<open>atempo\<close> operations in \<^verbatim>\<open>audio_filter_cmd\<close>.\<close>

definition audio_filter_chain :: "real \<Rightarrow> real list option" where
  "audio_filter_chain speed = (if speed \<noteq> 1 then audio_tempo_chain speed else Some [])"

subsection \<open>The pipeline (lines 121-739)\<close>

text \<open>
  What a run leaves behind: the progress values and the results it emitted, the encoder
  stages it started, the files on disk, and the three path variables that the
  \<^verbatim>\<open>finally\<close> block reads. The concat list is written to the local
  \<^verbatim>\<open>concat_list_path\<close>; \<^verbatim>\<open>concat_path\<close> is never assigned after line 125.
\<close>

record run_state =
  progress :: "int list"
  finished :: "job_result list"
  invoked :: "stage list"
  fs :: "path set"
  core_path :: "path option"
  intro_path :: "path option"
  concat_path :: "path option"

definition emit_progress :: "int \<Rightarrow> run_state \<Rightarrow> run_state" where
  "emit_progress v s = s \<lparr> progress := progress s @ [v] \<rparr>"

definition emit_finished :: "job_result \<Rightarrow> run_state \<Rightarrow> run_state" where
  "emit_finished r s = s \<lparr> finished := finished s @ [r] \<rparr>"

text \<open>Lines 722-724, the handler of the outer \<^verbatim>\<open>try\<close>.\<close>

definition unexpected :: "string \<Rightarrow> run_state \<Rightarrow> run_state" where
  "unexpected x s = emit_finished (Failure (''An unexpected error occurred: '' @ x @ ''.'')) s"

text \<open>
  Lines 618 and 629-632. The quotient and the products are read exactly, where the code
  rounds each to a float before \<^verbatim>\<open>int\<close> truncates.
\<close>

definition core_progress_weight :: "job \<Rightarrow> real" where
  "core_progress_weight j = (if intro_still_sec j > 0 then 8 / 10 else 1)"

definition core_progress :: "real \<Rightarrow> real \<Rightarrow> real \<Rightarrow> int" where
  "core_progress w dur current_seconds =
     (let percent = current_seconds / dur
      in py_int (max 0 (min (100 * w) (percent * 100 * w))))"

fun core_lines :: "real \<Rightarrow> real \<Rightarrow> real option list \<Rightarrow> run_state \<Rightarrow> run_state" where
  "core_lines w dur [] s = s"
| "core_lines w dur (None # ls) s = core_lines w dur ls s"
| "core_lines w dur (Some t # ls) s =
     core_lines w dur ls (if dur > 0 then emit_progress (core_progress w dur t) s else s)"

text \<open>Lines 686-688 and 708-710: one fixed value for every line of output.\<close>

fun fixed_lines :: "int \<Rightarrow> 'a list \<Rightarrow> run_state \<Rightarrow> run_state" where
  "fixed_lines v [] s = s"
| "fixed_lines v (l # ls) s = fixed_lines v ls (emit_progress v s)"

definition started :: "stage \<Rightarrow> path \<Rightarrow> proc \<Rightarrow> run_state \<Rightarrow> run_state" where
  "started st out p s =
     s \<lparr> invoked := invoked s @ [st],
         fs := (if writes_output p then insert out (fs s) else fs s) \<rparr>"

text \<open>Lines 693-720.\<close>

definition run_concat :: "env \<Rightarrow> run_state \<Rightarrow> run_state" where
  "run_concat e s =
     (if \<not> write_concat_ok e then unexpected ''cannot write the concat list'' s
      else
        let s1 = s \<lparr> fs := insert ConcatListTmp (fs s) \<rparr>
        in case popen_concat e of
             None \<Rightarrow> unexpected ''Popen failed'' s1
           | Some p \<Rightarrow>
               let s2 = fixed_lines 99 (out_lines p) (started CONCAT OutputFile p s1)
               in if returncode p \<noteq> 0 then emit_finished (Failure ''Concat failed (STEP 3/3).'') s2
                  else emit_finished (Success OutputFile) (emit_progress 100 s2))"

text \<open>Lines 656-692.\<close>

definition run_intro :: "env \<Rightarrow> run_state \<Rightarrow> run_state" where
  "run_intro e s =
     (let s1 = s \<lparr> intro_path := Some IntroTmp \<rparr>
      in case popen_intro e of
           None \<Rightarrow> unexpected ''Popen failed'' s1
         | Some p \<Rightarrow>
             let s2 = fixed_lines 95 (out_lines p) (started INTRO IntroTmp p s1)
             in if returncode p \<noteq> 0 then emit_finished (Failure ''Intro encode failed (STEP 2/3).'') s2
                else run_concat e s2)"

text \<open>Lines 641-655: the core file becomes the output.\<close>

definition deliver_core :: "env \<Rightarrow> run_state \<Rightarrow> run_state" where
  "deliver_core e s =
     (if CoreTmp \<in> fs s \<and> move_ok e then
        emit_finished (Success OutputFile)
          (emit_progress 100
            (s \<lparr> fs := insert OutputFile (fs s - {CoreTmp}), core_path := None \<rparr>))
      else emit_finished (Failure ''Failed to finalize output file.'') s)"

definition skip_intro :: "job \<Rightarrow> bool" where
  "skip_intro j = (disable_fades j \<or> intro_still_sec j \<le> 1 / 10000)"

text \<open>Lines 602-655.\<close>

definition run_core :: "job \<Rightarrow> env \<Rightarrow> run_state \<Rightarrow> run_state" where
  "run_core j e s =
     (let s1 = s \<lparr> core_path := Some CoreTmp \<rparr>
      in case popen_core e of
           None \<Rightarrow> unexpected ''Popen failed'' s1
         | Some p \<Rightarrow>
             let s2 = core_lines (core_progress_weight j) (duration_corrected j) (out_lines p)
                        (started CORE CoreTmp p s1)
             in if returncode p \<noteq> 0 then emit_finished (Failure ''Core encode failed (STEP 1/3).'') s2
                else if skip_intro j then deliver_core e s2
                else run_intro e s2)"

text \<open>
  Lines 126-724, the body of the outer \<^verbatim>\<open>try\<close> with its handler. The result is
  \<open>None\<close> when the tempo loop does not return.
\<close>

definition run_try :: "job \<Rightarrow> env \<Rightarrow> run_state \<Rightarrow> run_state option" where
  "run_try j e s =
     (if speed_factor j = 0 then Some (unexpected ''float division by zero'' s)
      else case estimate_bitrate j e of
             Finished msg \<Rightarrow> Some (emit_finished (Failure msg) s)
           | Raised x \<Rightarrow> Some (unexpected x s)
           | Bitrate video_bitrate_kbps \<Rightarrow>
               (case filter_exn e of
                  Some x \<Rightarrow> Some (unexpected x s)
                | None \<Rightarrow>
                    (case audio_filter_chain (speed_factor j) of
                       None \<Rightarrow> None
                     | Some chain \<Rightarrow>
                         (case output_exn e of
                            Some x \<Rightarrow> Some (unexpected x s)
                          | None \<Rightarrow> Some (run_core j e (emit_progress 0 s))))))"

text \<open>Lines 725-739.\<close>

definition remove_if_exists :: "run_state \<Rightarrow> path option \<Rightarrow> run_state" where
  "remove_if_exists s p =
     (case p of
        None \<Rightarrow> s
      | Some q \<Rightarrow> if q \<in> fs s then s \<lparr> fs := fs s - {q} \<rparr> else s)"

definition remove_log :: "run_state \<Rightarrow> string \<Rightarrow> run_state" where
  "remove_log s ext = s \<lparr> fs := fs s - {PassLog ext} \<rparr>"

definition run_finally :: "run_state \<Rightarrow> run_state" where
  "run_finally s =
     foldl remove_log
       (foldl remove_if_exists s [core_path s, intro_path s, concat_path s])
       [[], ''-0.log'', ''-1.log'', ''.log'', ''.log-0.log'', ''.log-1.log'']"

definition initial_state :: "env \<Rightarrow> run_state" where
  "initial_state e =
     \<lparr> progress = [], finished = [], invoked = [], fs = files_before e,
       core_path = None, intro_path = None, concat_path = None \<rparr>"

definition run :: "job \<Rightarrow> env \<Rightarrow> run_state option" where
  "run j e = map_option run_finally (run_try j e (initial_state e))"

subsection \<open>Notions used to state the properties\<close>

text \<open>The timestamps among the output lines of the CORE process, in order.\<close>

fun timestamps :: "real option list \<Rightarrow> real list" where
  "timestamps [] = []"
| "timestamps (None # ls) = timestamps ls"
| "timestamps (Some t # ls) = t # timestamps ls"

text \<open>
  The table of size targets as the specification gives it, \<open>{3:90, 2:45, 1:25, 0:15}\<close>,
  to be compared with what the constructor computes.
\<close>

definition spec_target_mb_table :: "int \<rightharpoonup> real" where
  "spec_target_mb_table = [3 \<mapsto> 90, 2 \<mapsto> 45, 1 \<mapsto> 25, 0 \<mapsto> 15]"

text \<open>Example inputs: constructor arguments for a given tier.\<close>

definition tier_args :: "int \<Rightarrow> job_args" where
  "tier_args q =
     \<lparr> arg_start_time = 10, arg_end_time = 40, arg_speed_factor = 1, arg_quality_level = q,
       arg_original_total_duration = 120, arg_disable_fades = False,
       arg_intro_still_sec = 0, arg_intro_from_midpoint = False \<rparr>"

text \<open>
  Example inputs: a job at speed 1.0 with the still taken from the midpoint, as the
  constructor builds it from a start, an end, the total duration, a tier, the fade
  switch and the length of the still.
\<close>

definition example_job :: "real \<Rightarrow> real \<Rightarrow> real \<Rightarrow> int \<Rightarrow> bool \<Rightarrow> real \<Rightarrow> job" where
  "example_job st en tot q nofade intro =
     \<lparr> start_time = st, end_time = en, speed_factor = 1, quality_level = q,
       keep_highest_res = (q \<ge> 4), lower_quality = (q \<le> 0), target_mb = tier_target_mb q,
       original_total_duration = tot, disable_fades = nofade,
       intro_from_midpoint = True, intro_still_sec = intro \<rparr>"

text \<open>Example inputs: a process that succeeds, and an environment in which nothing fails.\<close>

definition ok_proc :: "real option list \<Rightarrow> proc" where
  "ok_proc ls = \<lparr> out_lines = ls, returncode = 0, writes_output = True \<rparr>"

definition example_env :: "proc \<Rightarrow> env" where
  "example_env core =
     \<lparr> getsize = Some 50000000, probe_audio_kbps = None, filter_exn = None, output_exn = None,
       popen_core = Some core, move_ok = True, popen_intro = Some (ok_proc [None, None]),
       write_concat_ok = True, popen_concat = Some (ok_proc [None]), files_before = {} \<rparr>"

text \<open>
  The output lines of the CORE process (none when it cannot be started), the progress
  values the CORE loop emits for them, and the value 100 that only a success appends.
\<close>

definition core_output :: "env \<Rightarrow> real option list" where
  "core_output e = (case popen_core e of None \<Rightarrow> [] | Some p \<Rightarrow> out_lines p)"

definition core_emits :: "job \<Rightarrow> real option list \<Rightarrow> int list" where
  "core_emits j ls =
     (if duration_corrected j > 0
      then map (core_progress (core_progress_weight j) (duration_corrected j)) (timestamps ls)
      else [])"

definition final_mark :: "job_result \<Rightarrow> int list" where
  "final_mark r = (case r of Success out \<Rightarrow> [100] | Failure msg \<Rightarrow> [])"

text \<open>Example input: a CORE process that reports 30 s, then 10 s, and fails.\<close>

definition failing_core :: proc where
  "failing_core = \<lparr> out_lines = [Some 30, Some 10], returncode = 1, writes_output = True \<rparr>"

text \<open>
  The formula the specification gives for the progress of the CORE stage,
  \<open>min(100 weight, (elapsed / coreDuration) 100 weight)\<close>, to be compared with what the
  loop emits.
\<close>

definition spec_progress :: "real \<Rightarrow> real \<Rightarrow> real \<Rightarrow> real" where
  "spec_progress weight elapsed core_duration =
     min (100 * weight) (elapsed / core_duration * 100 * weight)"

text \<open>
  The code truncates the results of floating-point operations, which the definitions
  above read as exact. Next to an integer the two can differ by one: 29 s into a clip of
  50 s the floating-point product is 57.99999999999999 and the code emits 57, where the
  exact product is 58. A property that fixes a truncated value is therefore stated with
  a tolerance: \<open>v\<close> is the integer part of some value within \<open>tol\<close> of \<open>x\<close>.
\<close>

definition truncation_of :: "real \<Rightarrow> real \<Rightarrow> int \<Rightarrow> bool" where
  "truncation_of tol x v = (\<lfloor>x - tol\<rfloor> \<le> v \<and> v \<le> \<lfloor>x + tol\<rfloor>)"

text \<open>Lines 254-260: the bits left for the video in a tier with a fixed size target.\<close>

definition tiered_video_bits :: "job \<Rightarrow> real" where
  "tiered_video_bits j =
     (case target_mb j of Some m \<Rightarrow> m | None \<Rightarrow> 52) * 8 * 1024 * 1024
       - 128 * 1024 * effective_duration j"

section \<open>Basic facts\<close>

subsection \<open>What the loops and the cleanup leave unchanged\<close>

lemma core_lines_progress:
  "progress (core_lines w dur ls s) = progress s @ (if dur > 0 then map (core_progress w dur) (timestamps ls) else [])"
  by (induction w dur ls s rule: core_lines.induct) (simp_all add: emit_progress_def)

lemma core_lines_other [simp]:
  "finished (core_lines w dur ls s) = finished s"
  "invoked (core_lines w dur ls s) = invoked s"
  "fs (core_lines w dur ls s) = fs s"
  "core_path (core_lines w dur ls s) = core_path s"
  "intro_path (core_lines w dur ls s) = intro_path s"
  "concat_path (core_lines w dur ls s) = concat_path s"
  by (induction w dur ls s rule: core_lines.induct; simp add: emit_progress_def)+

lemma fixed_lines_progress:
  "progress (fixed_lines v ls s) = progress s @ replicate (length ls) v"
  by (induction v ls s rule: fixed_lines.induct) (simp_all add: emit_progress_def replicate_append_same)

lemma fixed_lines_other [simp]:
  "finished (fixed_lines v ls s) = finished s"
  "invoked (fixed_lines v ls s) = invoked s"
  "fs (fixed_lines v ls s) = fs s"
  "core_path (fixed_lines v ls s) = core_path s"
  "intro_path (fixed_lines v ls s) = intro_path s"
  "concat_path (fixed_lines v ls s) = concat_path s"
  by (induction v ls s rule: fixed_lines.induct; simp add: emit_progress_def)+

lemma remove_if_exists_simps [simp]:
  "fs (remove_if_exists s p) = fs s - set_option p"
  "progress (remove_if_exists s p) = progress s"
  "finished (remove_if_exists s p) = finished s"
  "invoked (remove_if_exists s p) = invoked s"
  by (auto simp: remove_if_exists_def split: option.splits)

lemma remove_log_simps [simp]:
  "fs (remove_log s ext) = fs s - {PassLog ext}"
  "progress (remove_log s ext) = progress s"
  "finished (remove_log s ext) = finished s"
  "invoked (remove_log s ext) = invoked s"
  by (simp_all add: remove_log_def)

lemma run_finally_other [simp]:
  "progress (run_finally s) = progress s"
  "finished (run_finally s) = finished s"
  "invoked (run_finally s) = invoked s"
  by (simp_all add: run_finally_def)

lemma run_finally_keeps:
  assumes "x \<in> fs s" "core_path s \<noteq> Some x" "intro_path s \<noteq> Some x" "concat_path s \<noteq> Some x"
    and "\<And>ext. x \<noteq> PassLog ext"
  shows "x \<in> fs (run_finally s)"
  using assms by (auto simp add: run_finally_def)

subsection \<open>Rounding and the shape of the tempo chain\<close>

lemma round_half_even_close: "\<bar>of_int (round_half_even x) - x\<bar> \<le> 1 / 2"
proof -
  have "of_int \<lfloor>x\<rfloor> \<le> x" "x < of_int \<lfloor>x\<rfloor> + 1" by linarith+
  then show ?thesis
    by (auto simp: round_half_even_def Let_def abs_le_iff)
qed

lemma py_round3_close: "\<bar>py_round3 f - f\<bar> \<le> 1 / 2000"
proof -
  have "\<bar>of_int (round_half_even (f * 1000)) - f * 1000\<bar> \<le> 1 / 2"
    by (rule round_half_even_close)
  then show ?thesis by (simp add: py_round3_def abs_le_iff field_simps)
qed

lemma tempo_element_range: "1 / 2 \<le> tempo_element f \<and> tempo_element f \<le> 2"
  by (simp add: tempo_element_def)

lemma tempo_element_close:
  assumes "1 / 2 \<le> f" "f \<le> 2"
  shows "\<bar>tempo_element f - f\<bar> \<le> 1 / 2000"
  using py_round3_close [of f] assms by (auto simp: tempo_element_def abs_le_iff min_def max_def)

lemma tempo_element_two: "tempo_element 2 = 2"
  by (simp add: tempo_element_def py_round3_def round_half_even_def)

lemma tempo_element_half: "tempo_element (1 / 2) = 1 / 2"
  by (simp add: tempo_element_def py_round3_def round_half_even_def)

lemma halve_loop_shape:
  "\<exists>k r. halve_loop chain s = chain @ replicate k 2 @ [r] \<and> s = r * 2 ^ k \<and>
         (s \<le> 2 \<longrightarrow> k = 0) \<and> (2 < s \<longrightarrow> r \<le> 2) \<and> (1 \<le> s \<longrightarrow> 1 \<le> r)"
proof (induction chain s rule: halve_loop.induct)
  case (1 chain s)
  show ?case
  proof (cases "2 < s")
    case False
    then have e: "halve_loop chain s = chain @ [s]"
      by (subst halve_loop.simps) simp
    show ?thesis
      by (rule exI [of _ 0], rule exI [of _ s]) (use e False in simp)
  next
    case True
    from "1.IH" [OF True] obtain k r where
      h1: "halve_loop (chain @ [2]) (s / 2) = (chain @ [2]) @ replicate k 2 @ [r]"
      and h2: "s / 2 = r * 2 ^ k" and h3: "s / 2 \<le> 2 \<longrightarrow> k = 0"
      and h4: "2 < s / 2 \<longrightarrow> r \<le> 2" and h5: "1 \<le> s / 2 \<longrightarrow> 1 \<le> r"
      by blast
    have r2: "r \<le> 2"
    proof (cases "2 < s / 2")
      case True with h4 show ?thesis by simp
    next
      case False
      with h3 have "k = 0" by simp
      with h2 False show ?thesis by simp
    qed
    have e: "halve_loop chain s = chain @ replicate (Suc k) 2 @ [r]"
      using True h1 by (subst halve_loop.simps) simp
    have s: "s = r * 2 ^ Suc k" using h2 by simp
    have r1: "1 \<le> r" using h5 True by simp
    show ?thesis
      by (rule exI [of _ "Suc k"], rule exI [of _ r]) (use e s r1 r2 True in simp)
  qed
qed

lemma double_loop_shape:
  assumes "0 < s" "1 / 2 \<le> s * 2 ^ n"
  shows "\<exists>k r. double_loop chain s = Some (chain @ replicate k (1 / 2) @ [r]) \<and> r = s * 2 ^ k \<and>
           1 / 2 \<le> r \<and> (0 < k \<longrightarrow> r < 1)"
  using assms
proof (induction n arbitrary: s chain)
  case 0
  then have "double_loop chain s = Some (chain @ replicate 0 (1 / 2) @ [s])"
    by (subst double_loop.simps) simp
  with 0 show ?case by force
next
  case (Suc n)
  show ?case
  proof (cases "s < 1 / 2")
    case False
    then have "double_loop chain s = Some (chain @ replicate 0 (1 / 2) @ [s])"
      by (subst double_loop.simps) simp
    with False show ?thesis by force
  next
    case True
    have "0 < s * 2" "1 / 2 \<le> (s * 2) * 2 ^ n" using Suc.prems by (simp_all add: mult.assoc)
    from Suc.IH [OF this, of "chain @ [1 / 2]"] obtain k r where
      h: "double_loop (chain @ [1 / 2]) (s * 2) = Some ((chain @ [1 / 2]) @ replicate k (1 / 2) @ [r])"
         "r = s * 2 * 2 ^ k" "1 / 2 \<le> r" "0 < k \<longrightarrow> r < 1"
      by blast
    have "double_loop chain s = Some (chain @ replicate (Suc k) (1 / 2) @ [r])"
      using True h(1) by (subst double_loop.simps) simp
    moreover have "r = s * 2 ^ Suc k" using h(2) by simp
    moreover have "r < 1" using h(2,4) True by (cases k) simp_all
    ultimately show ?thesis using h(3) by blast
  qed
qed

lemma double_loop_returns:
  assumes "0 < s"
  shows "\<exists>k r. double_loop chain s = Some (chain @ replicate k (1 / 2) @ [r]) \<and> r = s * 2 ^ k \<and>
           1 / 2 \<le> r \<and> (0 < k \<longrightarrow> r < 1)"
proof -
  obtain n where "1 / (2 * s) < 2 ^ n"
    using real_arch_pow [of 2 "1 / (2 * s)"] by auto
  then have "1 / 2 \<le> s * 2 ^ n" using assms by (simp add: field_simps)
  from double_loop_shape [OF assms this] show ?thesis .
qed


lemma prod_list_replicate_real: "prod_list (replicate k (a::real)) = a ^ k"
  by (induction k) simp_all

lemma chain_bound:
  fixes k :: nat and a r :: real
  assumes r: "1 / 2 \<le> r" "r \<le> 2" and a: "a = 2 \<or> a = 1 / 2"
  defines "c \<equiv> map tempo_element (filter (\<lambda>f. \<bar>f - 1\<bar> > 1 / 1000) (replicate k a @ [r]))"
  shows "(\<forall>f\<in>set c. 1 / 2 \<le> f \<and> f \<le> 2) \<and> \<bar>prod_list c - a ^ k * r\<bar> \<le> a ^ k / 1000"
proof -
  define r' where "r' = (if \<bar>r - 1\<bar> > 1 / 1000 then tempo_element r else 1)"
  have ta: "tempo_element a = a"
  proof (rule disjE [OF a])
    assume "a = 2" then show ?thesis by (simp only: tempo_element_two)
  next
    assume "a = 1 / 2" then show ?thesis by (simp only: tempo_element_half)
  qed
  have pa: "\<bar>a - 1\<bar> > 1 / 1000" using a by auto
  have c: "c = replicate k a @ (if \<bar>r - 1\<bar> > 1 / 1000 then [tempo_element r] else [])"
    unfolding c_def using pa ta by simp
  have range: "\<forall>f\<in>set c. 1 / 2 \<le> f \<and> f \<le> 2"
    unfolding c using a tempo_element_range [of r] by auto
  have prod: "prod_list c = a ^ k * r'"
    unfolding c r'_def by (simp add: prod_list_replicate_real)
  have close: "\<bar>r' - r\<bar> \<le> 1 / 1000"
  proof (cases "\<bar>r - 1\<bar> > 1 / 1000")
    case True
    then have "r' = tempo_element r" by (simp add: r'_def)
    with tempo_element_close [OF r] show ?thesis by linarith
  next
    case False
    then have "r' = 1" by (simp add: r'_def)
    moreover have "\<bar>1 - r\<bar> \<le> 1 / 1000" using False by linarith
    ultimately show ?thesis by (simp only:)
  qed
  have pos: "0 < a ^ k" using a by auto
  have "\<bar>prod_list c - a ^ k * r\<bar> = a ^ k * \<bar>r' - r\<bar>"
    using pos unfolding prod by (simp add: right_diff_distrib [symmetric] abs_mult)
  also have "\<dots> \<le> a ^ k * (1 / 1000)"
    using close pos by (simp add: mult_left_mono)
  finally show ?thesis using range by simp
qed

subsection \<open>Evaluation\<close>

lemma example_job_constructed:
  "0 \<le> intro \<Longrightarrow>
   init \<lparr> arg_start_time = st, arg_end_time = en, arg_speed_factor = 1, arg_quality_level = q,
          arg_original_total_duration = tot, arg_disable_fades = nofade,
          arg_intro_still_sec = intro, arg_intro_from_midpoint = True \<rparr>
     = Inr (example_job st en tot q nofade intro)"
  by (simp add: init_def example_job_def effective_intro_still_sec_def)

lemma truncation_of_floor: "0 \<le> tol \<Longrightarrow> truncation_of tol x \<lfloor>x\<rfloor>"
  by (simp add: truncation_of_def floor_mono)

lemmas duration_defs = effective_duration_def intro_len_for_size_def duration_corrected_def
  speed_correct_def by_speed_def plan_trim_def FADE_DUR_def EPS_def Let_def

lemmas estimate_defs = estimate_bitrate_def tiered_estimate_def match_source_estimate_def
  tier_target_mb_def py_int_def

subsection \<open>The progress of the CORE stage\<close>

lemma intro_follows_weight: "\<not> skip_intro j \<Longrightarrow> core_progress_weight j = 8 / 10"
  by (simp add: skip_intro_def core_progress_weight_def)

subsection \<open>Returning, and the stages a run starts\<close>

lemma audio_filter_chain_returns:
  assumes "0 < speed"
  shows "\<exists>c. audio_filter_chain speed = Some c"
proof (cases "1 \<le> speed")
  case True
  then show ?thesis by (simp add: audio_filter_chain_def audio_tempo_chain_def)
next
  case False
  from double_loop_returns [OF assms, of "[]"] obtain c where "double_loop [] speed = Some c"
    by blast
  with False show ?thesis by (simp add: audio_filter_chain_def audio_tempo_chain_def)
qed

lemmas pipeline_defs = run_core_def run_intro_def run_concat_def deliver_core_def
  started_def unexpected_def emit_finished_def emit_progress_def Let_def

lemma run_try_returns:
  assumes "0 < speed_factor j"
  shows "\<exists>s'. run_try j e s = Some s'"
proof -
  from audio_filter_chain_returns [OF assms] obtain c where "audio_filter_chain (speed_factor j) = Some c"
    by blast
  then show ?thesis
    by (simp add: run_try_def split: estimate.splits option.splits)
qed

lemma run_returns:
  assumes "0 < speed_factor j"
  shows "\<exists>s. run j e = Some s"
  using run_try_returns [OF assms, of e "initial_state e"] by (auto simp: run_def)

lemma run_concat_invoked:
  "invoked (run_concat e s) = invoked s \<or> invoked (run_concat e s) = invoked s @ [CONCAT]"
  by (simp add: pipeline_defs split: option.splits)

lemma run_core_skip_invoked:
  assumes "skip_intro j"
  shows "invoked (run_core j e s) = invoked s \<or> invoked (run_core j e s) = invoked s @ [CORE]"
  using assms by (simp add: pipeline_defs split: option.splits)

lemma run_try_skip_invoked:
  assumes "skip_intro j" "run_try j e s = Some s'"
  shows "invoked s' = invoked s \<or> invoked s' = invoked s @ [CORE]"
  using assms(2) run_core_skip_invoked [OF assms(1), of e "emit_progress 0 s"]
  by (auto simp: run_try_def unexpected_def emit_finished_def emit_progress_def
      split: if_splits estimate.splits option.splits)

lemmas run_defs = run_def run_try_def initial_state_def run_finally_def remove_log_def
  remove_if_exists_def skip_intro_def core_progress_def core_progress_weight_def
  audio_filter_chain_def ok_proc_def example_env_def example_job_def

subsection \<open>The path variables and the concat list\<close>

lemma run_concat_paths [simp]:
  "core_path (run_concat e s) = core_path s"
  "intro_path (run_concat e s) = intro_path s"
  "concat_path (run_concat e s) = concat_path s"
  by (simp_all add: pipeline_defs split: option.splits)

lemma run_concat_list:
  assumes "CONCAT \<in> set (invoked (run_concat e s))" "CONCAT \<notin> set (invoked s)"
  shows "ConcatListTmp \<in> fs (run_concat e s)"
  using assms by (simp add: pipeline_defs split: option.splits if_splits)

lemma run_intro_paths:
  "core_path (run_intro e s) = core_path s"
  "intro_path (run_intro e s) = Some IntroTmp"
  "concat_path (run_intro e s) = concat_path s"
  by (simp_all add: run_intro_def started_def unexpected_def emit_finished_def Let_def
      split: option.splits)

lemma run_intro_list:
  assumes "CONCAT \<in> set (invoked (run_intro e s))" "CONCAT \<notin> set (invoked s)"
  shows "ConcatListTmp \<in> fs (run_intro e s)"
proof (cases "popen_intro e")
  case None
  with assms show ?thesis
    by (simp add: run_intro_def unexpected_def emit_finished_def)
next
  case (Some p)
  define s2 where "s2 = fixed_lines 95 (out_lines p) (started INTRO IntroTmp p (s\<lparr>intro_path := Some IntroTmp\<rparr>))"
  have n: "CONCAT \<notin> set (invoked s2)" using assms(2) by (simp add: s2_def started_def)
  show ?thesis
  proof (cases "returncode p = 0")
    case True
    with Some have r: "run_intro e s = run_concat e s2"
      by (simp add: run_intro_def s2_def Let_def)
    from assms(1) show ?thesis unfolding r using n by (rule run_concat_list)
  next
    case False
    with Some have "invoked (run_intro e s) = invoked s2"
      by (simp add: run_intro_def s2_def emit_finished_def Let_def)
    with assms(1) n show ?thesis by simp
  qed
qed

lemma run_core_paths:
  "concat_path (run_core j e s) = concat_path s"
  "core_path (run_core j e s) = None \<or> core_path (run_core j e s) = Some CoreTmp"
  "intro_path (run_core j e s) = intro_path s \<or> intro_path (run_core j e s) = Some IntroTmp"
  by (simp_all add: run_core_def deliver_core_def started_def unexpected_def emit_finished_def
      emit_progress_def Let_def run_intro_paths split: option.splits)

lemma run_core_list:
  assumes "CONCAT \<in> set (invoked (run_core j e s))" "CONCAT \<notin> set (invoked s)"
  shows "ConcatListTmp \<in> fs (run_core j e s)"
proof (cases "popen_core e")
  case None
  with assms show ?thesis
    by (simp add: run_core_def unexpected_def emit_finished_def)
next
  case (Some p)
  define s2 where "s2 = core_lines (core_progress_weight j) (duration_corrected j) (out_lines p)
                        (started CORE CoreTmp p (s\<lparr>core_path := Some CoreTmp\<rparr>))"
  have n: "CONCAT \<notin> set (invoked s2)" using assms(2) by (simp add: s2_def started_def)
  consider (fail) "returncode p \<noteq> 0" | (skip) "returncode p = 0" "skip_intro j"
    | (intro) "returncode p = 0" "\<not> skip_intro j" by blast
  then show ?thesis
  proof cases
    case fail
    with Some have "invoked (run_core j e s) = invoked s2"
      by (simp add: run_core_def s2_def emit_finished_def Let_def)
    with assms(1) n show ?thesis by simp
  next
    case skip
    with Some have "invoked (run_core j e s) = invoked s2"
      by (simp add: run_core_def s2_def deliver_core_def emit_finished_def emit_progress_def Let_def)
    with assms(1) n show ?thesis by simp
  next
    case intro
    with Some have r: "run_core j e s = run_intro e s2"
      by (simp add: run_core_def s2_def Let_def)
    from assms(1) show ?thesis unfolding r using n by (rule run_intro_list)
  qed
qed

lemma run_try_list:
  assumes "run_try j e (initial_state e) = Some s" "CONCAT \<in> set (invoked s)"
  shows "ConcatListTmp \<in> fs s \<and> core_path s \<noteq> Some ConcatListTmp \<and>
         intro_path s \<noteq> Some ConcatListTmp \<and> concat_path s = None"
proof -
  define s0 where "s0 = emit_progress 0 (initial_state e)"
  have s0: "CONCAT \<notin> set (invoked s0)" "concat_path s0 = None" "intro_path s0 = None"
    by (simp_all add: s0_def emit_progress_def initial_state_def)
  have "s = run_core j e s0"
    using assms
    by (auto simp: run_try_def s0_def unexpected_def emit_finished_def initial_state_def
        split: if_splits estimate.splits option.splits)
  then show ?thesis
    using run_core_list [of j e s0] run_core_paths [of j e s0] assms(2) s0 by auto
qed

subsection \<open>The progress values of a run\<close>

lemma core_lines_emits:
  "progress (core_lines (core_progress_weight j) (duration_corrected j) ls s)
     = progress s @ core_emits j ls"
  by (simp add: core_lines_progress core_emits_def)

lemma core_progress_alt:
  "core_progress w d t = \<lfloor>max 0 (min (100 * w) (t / d * 100 * w))\<rfloor>"
  unfolding core_progress_def Let_def py_int_def by simp

lemma core_progress_lower: "0 \<le> core_progress w d t"
  unfolding core_progress_alt by simp

lemma core_progress_upper:
  assumes "0 \<le> w"
  shows "real_of_int (core_progress w d t) \<le> 100 * w"
proof -
  have "max 0 (min (100 * w) (t / d * 100 * w)) \<le> 100 * w" using assms by simp
  moreover have "real_of_int \<lfloor>max 0 (min (100 * w) (t / d * 100 * w))\<rfloor>
      \<le> max 0 (min (100 * w) (t / d * 100 * w))" by (rule of_int_floor_le)
  ultimately show ?thesis unfolding core_progress_alt by (rule order_trans [rotated])
qed

lemma core_progress_mono:
  assumes "0 < d" "0 \<le> w" "t1 \<le> t2"
  shows "core_progress w d t1 \<le> core_progress w d t2"
proof -
  have "t1 / d \<le> t2 / d" using assms by (simp add: divide_right_mono)
  then have "t1 / d * 100 \<le> t2 / d * 100" by (rule mult_right_mono) simp
  then have "t1 / d * 100 * w \<le> t2 / d * 100 * w" using assms(2) by (rule mult_right_mono)
  then have "max 0 (min (100 * w) (t1 / d * 100 * w)) \<le> max 0 (min (100 * w) (t2 / d * 100 * w))"
    by (intro max.mono min.mono) simp_all
  then show ?thesis unfolding core_progress_alt by (rule floor_mono)
qed

lemma core_progress_hundred:
  assumes "core_progress 1 d t = 100" "0 < d"
  shows "d \<le> t"
proof -
  have "\<lfloor>max 0 (min 100 (t / d * 100))\<rfloor> = 100" using assms(1) by (simp add: core_progress_alt)
  then have "100 \<le> max 0 (min 100 (t / d * 100))" by linarith
  then have "100 \<le> t / d * 100" by simp
  moreover have "100 \<le> x * 100 \<Longrightarrow> 1 \<le> x" for x :: real by simp
  ultimately have "1 \<le> t / d" by blast
  then show ?thesis using assms(2) by (simp add: pos_le_divide_eq)
qed

lemma core_emits_range:
  assumes "v \<in> set (core_emits j ls)"
  shows "0 \<le> v \<and> v \<le> 100 \<and> (\<not> skip_intro j \<longrightarrow> v \<le> 80)"
proof -
  from assms obtain t where v: "v = core_progress (core_progress_weight j) (duration_corrected j) t"
    by (auto simp: core_emits_def split: if_splits)
  have w: "0 \<le> core_progress_weight j" "core_progress_weight j \<le> 1"
    by (simp_all add: core_progress_weight_def)
  from core_progress_upper [OF w(1), of "duration_corrected j" t] w(2)
  have "real_of_int v \<le> 100" unfolding v by linarith
  then have a: "v \<le> 100" by linarith
  have b: "v \<le> 80" if "\<not> skip_intro j"
  proof -
    from that have w8: "core_progress_weight j = 8 / 10" by (rule intro_follows_weight)
    from core_progress_upper [OF w(1), of "duration_corrected j" t]
    have "real_of_int v \<le> 100 * core_progress_weight j" unfolding v .
    then have "real_of_int v \<le> 80" unfolding w8 by linarith
    then show ?thesis by linarith
  qed
  from a b show ?thesis unfolding v by (simp add: core_progress_lower)
qed

lemma core_emits_sorted:
  assumes "sorted (timestamps ls)"
  shows "sorted (core_emits j ls)"
proof (cases "0 < duration_corrected j")
  case False
  then show ?thesis by (simp add: core_emits_def)
next
  case True
  have w: "0 \<le> core_progress_weight j" by (simp add: core_progress_weight_def)
  have "sorted (map (core_progress (core_progress_weight j) (duration_corrected j)) (timestamps ls))"
    using assms
    by (simp add: sorted_map) (erule sorted_wrt_mono_rel [rotated], rule core_progress_mono [OF True w])
  with True show ?thesis by (simp add: core_emits_def)
qed

lemma core_emits_hundred:
  assumes "100 \<in> set (core_emits j ls)"
  shows "core_progress_weight j = 1 \<and> (\<exists>t\<in>set (timestamps ls). duration_corrected j \<le> t)"
proof -
  from assms obtain t where d: "0 < duration_corrected j" and t: "t \<in> set (timestamps ls)"
    and v: "core_progress (core_progress_weight j) (duration_corrected j) t = 100"
    by (auto simp: core_emits_def split: if_splits)
  have w: "0 \<le> core_progress_weight j" by (simp add: core_progress_weight_def)
  from core_progress_upper [OF w, of "duration_corrected j" t] v
  have "1 \<le> core_progress_weight j" by simp
  then have w1: "core_progress_weight j = 1" by (simp add: core_progress_weight_def split: if_splits)
  with v d have "duration_corrected j \<le> t" by (simp add: core_progress_hundred)
  with t w1 show ?thesis by blast
qed

lemma run_concat_summary:
  "\<exists>m r. progress (run_concat e s) = progress s @ replicate m 99 @ final_mark r \<and>
         finished (run_concat e s) = finished s @ [r] \<and>
         (r = Success OutputFile \<or> (\<exists>msg. r = Failure msg))"
proof (cases "write_concat_ok e")
  case False
  then show ?thesis
    by (intro exI [of _ 0] exI [of _ "Failure (''An unexpected error occurred: '' @ ''cannot write the concat list'' @ ''.'')"])
       (simp add: run_concat_def unexpected_def emit_finished_def final_mark_def)
next
  case w: True
  show ?thesis
  proof (cases "popen_concat e")
    case None
    with w show ?thesis
      by (intro exI [of _ 0] exI [of _ "Failure (''An unexpected error occurred: '' @ ''Popen failed'' @ ''.'')"])
         (simp add: run_concat_def unexpected_def emit_finished_def final_mark_def)
  next
    case (Some p)
    show ?thesis
    proof (cases "returncode p = 0")
      case True
      with w Some show ?thesis
        by (intro exI [of _ "length (out_lines p)"] exI [of _ "Success OutputFile"])
           (simp add: run_concat_def emit_finished_def emit_progress_def final_mark_def
              fixed_lines_progress started_def Let_def)
    next
      case False
      with w Some show ?thesis
        by (intro exI [of _ "length (out_lines p)"] exI [of _ "Failure ''Concat failed (STEP 3/3).''"])
           (simp add: run_concat_def emit_finished_def final_mark_def
              fixed_lines_progress started_def Let_def)
    qed
  qed
qed

lemma run_intro_summary:
  "\<exists>n m r. progress (run_intro e s) = progress s @ replicate n 95 @ replicate m 99 @ final_mark r \<and>
           finished (run_intro e s) = finished s @ [r] \<and>
           (r = Success OutputFile \<or> (\<exists>msg. r = Failure msg))"
proof (cases "popen_intro e")
  case None
  then show ?thesis
    by (intro exI [of _ 0] exI [of _ "Failure (''An unexpected error occurred: '' @ ''Popen failed'' @ ''.'')"])
       (simp add: run_intro_def unexpected_def emit_finished_def final_mark_def)
next
  case (Some p)
  define s2 where "s2 = fixed_lines 95 (out_lines p) (started INTRO IntroTmp p (s\<lparr>intro_path := Some IntroTmp\<rparr>))"
  have p2: "progress s2 = progress s @ replicate (length (out_lines p)) 95" "finished s2 = finished s"
    by (simp_all add: s2_def fixed_lines_progress started_def)
  show ?thesis
  proof (cases "returncode p = 0")
    case False
    with Some have "run_intro e s = emit_finished (Failure ''Intro encode failed (STEP 2/3).'') s2"
      by (simp add: run_intro_def s2_def Let_def)
    then show ?thesis using p2
      by (intro exI [of _ "length (out_lines p)"] exI [of _ 0]
            exI [of _ "Failure ''Intro encode failed (STEP 2/3).''"])
         (simp add: emit_finished_def final_mark_def)
  next
    case True
    with Some have r: "run_intro e s = run_concat e s2"
      by (simp add: run_intro_def s2_def Let_def)
    from run_concat_summary [of e s2] obtain m r where
      "progress (run_concat e s2) = progress s2 @ replicate m 99 @ final_mark r"
      "finished (run_concat e s2) = finished s2 @ [r]"
      "r = Success OutputFile \<or> (\<exists>msg. r = Failure msg)" by blast
    then show ?thesis unfolding r using p2
      by (intro exI [of _ "length (out_lines p)"] exI [of _ m] exI [of _ r]) simp
  qed
qed

lemma run_core_summary:
  "\<exists>Y r. progress (run_core j e s) = progress s @ core_emits j (core_output e) @ Y @ final_mark r \<and>
         finished (run_core j e s) = finished s @ [r] \<and>
         (r = Success OutputFile \<or> (\<exists>msg. r = Failure msg)) \<and>
         (Y = [] \<or> \<not> skip_intro j \<and> (\<exists>n m. Y = replicate n 95 @ replicate m 99))"
proof (cases "popen_core e")
  case None
  then show ?thesis
    by (intro exI [of _ "[]"] exI [of _ "Failure (''An unexpected error occurred: '' @ ''Popen failed'' @ ''.'')"])
       (simp add: run_core_def unexpected_def emit_finished_def final_mark_def core_output_def
          core_emits_def)
next
  case (Some p)
  define s2 where "s2 = core_lines (core_progress_weight j) (duration_corrected j) (out_lines p)
                        (started CORE CoreTmp p (s\<lparr>core_path := Some CoreTmp\<rparr>))"
  have p2: "progress s2 = progress s @ core_emits j (core_output e)" "finished s2 = finished s"
    using Some by (simp_all add: s2_def core_lines_emits started_def core_output_def)
  consider (fail) "returncode p \<noteq> 0" | (skip) "returncode p = 0" "skip_intro j"
    | (intro) "returncode p = 0" "\<not> skip_intro j" by blast
  then show ?thesis
  proof cases
    case fail
    with Some have "run_core j e s = emit_finished (Failure ''Core encode failed (STEP 1/3).'') s2"
      by (simp add: run_core_def s2_def Let_def)
    then show ?thesis using p2
      by (intro exI [of _ "[]"] exI [of _ "Failure ''Core encode failed (STEP 1/3).''"])
         (simp add: emit_finished_def final_mark_def)
  next
    case skip
    with Some have r: "run_core j e s = deliver_core e s2"
      by (simp add: run_core_def s2_def Let_def)
    show ?thesis
    proof (cases "CoreTmp \<in> fs s2 \<and> move_ok e")
      case True
      then show ?thesis unfolding r using p2
        by (intro exI [of _ "[]"] exI [of _ "Success OutputFile"])
           (simp add: deliver_core_def emit_finished_def emit_progress_def final_mark_def)
    next
      case False
      then show ?thesis unfolding r using p2
        by (intro exI [of _ "[]"] exI [of _ "Failure ''Failed to finalize output file.''"])
           (auto simp add: deliver_core_def emit_finished_def final_mark_def)
    qed
  next
    case intro
    with Some have r: "run_core j e s = run_intro e s2"
      by (simp add: run_core_def s2_def Let_def)
    from run_intro_summary [of e s2] obtain n m r' where
      "progress (run_intro e s2) = progress s2 @ replicate n 95 @ replicate m 99 @ final_mark r'"
      "finished (run_intro e s2) = finished s2 @ [r']"
      "r' = Success OutputFile \<or> (\<exists>msg. r' = Failure msg)" by blast
    then show ?thesis unfolding r using p2 intro(2)
      by (intro exI [of _ "replicate n 95 @ replicate m 99"] exI [of _ r']) auto
  qed
qed

lemma run_try_summary:
  assumes "run_try j e (initial_state e) = Some s"
  shows "\<exists>r. finished s = [r] \<and> (r = Success OutputFile \<or> (\<exists>msg. r = Failure msg)) \<and>
           (progress s = [] \<and> (\<exists>msg. r = Failure msg) \<or>
            (\<exists>Y. progress s = [0] @ core_emits j (core_output e) @ Y @ final_mark r \<and>
                 (Y = [] \<or> \<not> skip_intro j \<and> (\<exists>n m. Y = replicate n 95 @ replicate m 99))))"
proof -
  define s0 where "s0 = emit_progress 0 (initial_state e)"
  have s0: "progress s0 = [0]" "finished s0 = []"
    by (simp_all add: s0_def emit_progress_def initial_state_def)
  from assms consider (early) msg where "s = emit_finished (Failure msg) (initial_state e)"
    | (core) "s = run_core j e s0"
    by (auto simp: run_try_def s0_def unexpected_def split: if_splits estimate.splits option.splits)
  then show ?thesis
  proof cases
    case early
    then show ?thesis by (simp add: emit_finished_def initial_state_def)
  next
    case core
    from run_core_summary [of j e s0] obtain Y r where
      h: "progress s = [0] @ core_emits j (core_output e) @ Y @ final_mark r"
         "finished s = [r]" "r = Success OutputFile \<or> (\<exists>msg. r = Failure msg)"
         "Y = [] \<or> \<not> skip_intro j \<and> (\<exists>n m. Y = replicate n 95 @ replicate m 99)"
      unfolding core s0 by auto
    show ?thesis
      by (rule exI [of _ r], rule conjI [OF h(2)], rule conjI [OF h(3)], rule disjI2,
          rule exI [of _ Y]) (use h(1,4) in blast)
  qed
qed


lemma progress_shape:
  fixes E Y F :: "int list"
  assumes "\<forall>v\<in>set E. 0 \<le> v \<and> v \<le> 100"
    and "Y = [] \<or> (\<forall>v\<in>set E. v \<le> 80) \<and> Y = replicate n 95 @ replicate m 99"
    and "F = [] \<or> F = [100]"
  shows "\<forall>v\<in>set ([0] @ E @ Y @ F). 0 \<le> v \<and> v \<le> 100"
    and "sorted E \<Longrightarrow> sorted ([0] @ E @ Y @ F)"
    and "100 \<in> set ([0] @ E @ Y @ F) \<Longrightarrow> F = [] \<Longrightarrow> 100 \<in> set E"
proof -
  have e80: "v \<le> 95 \<and> v \<le> 99" if "v \<in> set E" "\<forall>v\<in>set E. v \<le> 80" for v
    using that by fastforce
  show "\<forall>v\<in>set ([0] @ E @ Y @ F). 0 \<le> v \<and> v \<le> 100"
    using assms by auto
  show "sorted ([0] @ E @ Y @ F)" if "sorted E"
    using that assms e80 by (auto simp: sorted_append)
  show "100 \<in> set E" if "100 \<in> set ([0] @ E @ Y @ F)" "F = []"
    using that assms by auto
qed

section \<open>Properties\<close>

subsection \<open>Quality tiers\<close>

text \<open>
  C8. For each quality tier 0, 1, 2, 3 the constructed job's target size is the table
  value 15, 25, 45, 90 MB, and for tier 4 the job has no fixed target.
\<close>

theorem C8_target_mb_table:
  assumes "init a = Inr j" and "0 \<le> arg_quality_level a" and "arg_quality_level a \<le> 4"
  shows "target_mb j = spec_target_mb_table (arg_quality_level a)"
proof -
  from assms(2,3) have "arg_quality_level a \<in> {0, 1, 2, 3, 4}" by auto
  moreover from assms(1) have "target_mb j = tier_target_mb (arg_quality_level a)"
    by (auto simp: init_def split: if_splits)
  ultimately show ?thesis
    by (auto simp: tier_target_mb_def spec_target_mb_table_def)
qed

theorem C8_target_mb_table_witness:
  "(\<exists>j. init (tier_args 3) = Inr j \<and> target_mb j = Some 90) \<and>
   (\<exists>j. init (tier_args 2) = Inr j \<and> target_mb j = Some 45) \<and>
   (\<exists>j. init (tier_args 1) = Inr j \<and> target_mb j = Some 25) \<and>
   (\<exists>j. init (tier_args 0) = Inr j \<and> target_mb j = Some 15) \<and>
   (\<exists>j. init (tier_args 4) = Inr j \<and> target_mb j = None)"
proof -
  have w: "\<exists>j. init (tier_args q) = Inr j \<and> target_mb j = spec_target_mb_table q"
    if "0 \<le> q" "q \<le> 4" for q
  proof -
    obtain j where i: "init (tier_args q) = Inr j"
      by (simp add: init_def tier_args_def)
    from C8_target_mb_table [OF i] that have "target_mb j = spec_target_mb_table q"
      by (simp add: tier_args_def)
    with i show ?thesis by blast
  qed
  from w [of 3] w [of 2] w [of 1] w [of 0] w [of 4] show ?thesis
    by (simp add: spec_target_mb_table_def)
qed

subsection \<open>Audio tempo chain\<close>

text \<open>
  C6, as the code has it. For every speed factor greater than 0 the tempo loop returns;
  every element of the chain lies in [0.5, 2.0]; the product of the chain differs from
  the speed factor by at most one thousandth when the speed factor is at most 2, and by
  at most one thousandth of the speed factor beyond that (each element is rounded to
  three decimals, and an element within one thousandth of 1 is dropped); a speed factor
  of exactly 1.0 gives no tempo operation.
\<close>

theorem C6_tempo_chain:
  assumes "0 < speed"
  shows "\<exists>c. audio_filter_chain speed = Some c \<and>
             (\<forall>f\<in>set c. 1 / 2 \<le> f \<and> f \<le> 2) \<and>
             \<bar>prod_list c - speed\<bar> \<le> (if speed \<le> 2 then 1 / 1000 else speed / 1000) \<and>
             (speed = 1 \<longrightarrow> c = [])"
proof (cases "speed = 1")
  case True
  then show ?thesis by (simp add: audio_filter_chain_def)
next
  case ne: False
  show ?thesis
  proof (cases "1 \<le> speed")
    case True
    obtain k r where
      h: "halve_loop [] speed = [] @ replicate k 2 @ [r]" "speed = r * 2 ^ k"
         "speed \<le> 2 \<longrightarrow> k = 0" "2 < speed \<longrightarrow> r \<le> 2" "1 \<le> speed \<longrightarrow> 1 \<le> r"
      using halve_loop_shape [of "[]" speed] by blast
    have r1: "1 \<le> r" using h(5) True by simp
    have r2: "r \<le> 2"
    proof (cases "2 < speed")
      case True with h(4) show ?thesis by simp
    next
      case False
      with h(3) have "k = 0" by simp
      with h(2) False show ?thesis by simp
    qed
    define c where "c = map tempo_element (filter (\<lambda>f. \<bar>f - 1\<bar> > 1 / 1000) (replicate k 2 @ [r]))"
    have b: "(\<forall>f\<in>set c. 1 / 2 \<le> f \<and> f \<le> 2) \<and> \<bar>prod_list c - 2 ^ k * r\<bar> \<le> 2 ^ k / 1000"
      unfolding c_def using chain_bound [of r 2 k] r1 r2 by simp
    have e: "audio_filter_chain speed = Some c"
      using ne True h(1) by (simp add: audio_filter_chain_def audio_tempo_chain_def c_def)
    have "(2::real) ^ k \<le> 2 ^ k * r" using r1 by simp
    then have le: "(2::real) ^ k \<le> speed" using h(2) by (simp add: mult.commute)
    have "\<bar>prod_list c - speed\<bar> \<le> 2 ^ k / 1000"
      using b h(2) by (simp add: mult.commute)
    moreover have "speed \<le> 2 \<longrightarrow> (2::real) ^ k / 1000 = 1 / 1000" using h(3) by simp
    moreover have "(2::real) ^ k / 1000 \<le> speed / 1000" using le by simp
    ultimately have "\<bar>prod_list c - speed\<bar> \<le> (if speed \<le> 2 then 1 / 1000 else speed / 1000)"
      by (cases "speed \<le> 2") simp_all
    with e b ne show ?thesis by simp
  next
    case False
    obtain k r where
      h: "double_loop [] speed = Some ([] @ replicate k (1 / 2) @ [r])" "r = speed * 2 ^ k"
         "1 / 2 \<le> r" "0 < k \<longrightarrow> r < 1"
      using double_loop_returns [OF assms, of "[]"] by blast
    have r2: "r \<le> 2" using h(2,4) False by (cases k) simp_all
    define c where "c = map tempo_element (filter (\<lambda>f. \<bar>f - 1\<bar> > 1 / 1000) (replicate k (1 / 2) @ [r]))"
    have b: "(\<forall>f\<in>set c. 1 / 2 \<le> f \<and> f \<le> 2) \<and> \<bar>prod_list c - (1 / 2) ^ k * r\<bar> \<le> (1 / 2) ^ k / 1000"
      unfolding c_def using chain_bound [of r "1 / 2" k] h(3) r2 by simp
    have e: "audio_filter_chain speed = Some c"
      using ne False h(1) by (simp add: audio_filter_chain_def audio_tempo_chain_def c_def)
    have s: "(1 / 2) ^ k * r = speed" using h(2) by (simp add: power_divide)
    have "((1::real) / 2) ^ k \<le> 1" by (simp add: power_le_one)
    then have "((1::real) / 2) ^ k / 1000 \<le> 1 / 1000" by simp
    with b s have "\<bar>prod_list c - speed\<bar> \<le> 1 / 1000" by simp
    with e b ne False show ?thesis by simp
  qed
qed

theorem C6_tempo_chain_witness:
  "(0::real) < 3 \<and> audio_filter_chain 3 = Some [2, 3 / 2] \<and>
   (\<exists>c. audio_filter_chain 3 = Some c \<and> (\<forall>f\<in>set c. 1 / 2 \<le> f \<and> f \<le> 2) \<and>
        \<bar>prod_list c - 3\<bar> \<le> 3 / 1000) \<and>
   audio_filter_chain 1 = Some []"
proof -
  have "audio_filter_chain 3 = Some [2, 3 / 2]"
    by (simp add: audio_filter_chain_def audio_tempo_chain_def halve_loop.simps
        tempo_element_def py_round3_def round_half_even_def)
  with C6_tempo_chain [of 3] C6_tempo_chain [of 1] show ?thesis by simp
qed

text \<open>
  The product is not within one thousandth of every speed factor: at 9.003 the chain is
  2, 2, 2, 1.125, whose product is 9.
\<close>

theorem C6_product_counterexample:
  "audio_filter_chain (9003 / 1000) = Some [2, 2, 2, 1125 / 1000] \<and>
   \<not> \<bar>prod_list [2, 2, 2, 1125 / 1000] - 9003 / 1000\<bar> \<le> (1 / 1000 :: real)"
  by (simp add: audio_filter_chain_def audio_tempo_chain_def halve_loop.simps
      tempo_element_def py_round3_def round_half_even_def)

subsection \<open>Trim window\<close>

text \<open>
  C2, as the code has it. With fades enabled: when the user start is at least
  FADE_DUR - EPS (1.49 s) the seek starts FADE_DUR earlier and the fade-in lasts
  FADE_DUR, otherwise the seek starts at the user start and there is no fade-in; when
  the total duration is known (positive) and the user end exceeds
  total - FADE_DUR + EPS there is no fade-out, otherwise the fade-out lasts FADE_DUR and
  the seek window ends FADE_DUR after the user end.
\<close>

theorem C2_trim_padding:
  assumes "\<not> disable_fades j"
  shows "(FADE_DUR - EPS \<le> start_time j \<longrightarrow>
            in_ss (plan_trim j) = start_time j - FADE_DUR \<and> vfade_in_d (plan_trim j) = FADE_DUR) \<and>
         (start_time j < FADE_DUR - EPS \<longrightarrow>
            in_ss (plan_trim j) = start_time j \<and> vfade_in_d (plan_trim j) = 0) \<and>
         (0 < original_total_duration j \<and> original_total_duration j - FADE_DUR + EPS < end_time j \<longrightarrow>
            vfade_out_d (plan_trim j) = 0) \<and>
         (\<not> (0 < original_total_duration j \<and> original_total_duration j - FADE_DUR + EPS < end_time j) \<longrightarrow>
            vfade_out_d (plan_trim j) = FADE_DUR \<and>
            (start_time j \<le> end_time j \<longrightarrow>
               in_ss (plan_trim j) + in_t (plan_trim j) = end_time j + FADE_DUR))"
  using assms by (auto simp: plan_trim_def Let_def FADE_DUR_def EPS_def)

theorem C2_trim_padding_witness:
  "in_ss (plan_trim (example_job 10 40 120 2 False 0)) = 10 - FADE_DUR \<and>
   vfade_in_d (plan_trim (example_job 10 40 120 2 False 0)) = FADE_DUR \<and>
   vfade_out_d (plan_trim (example_job 10 40 120 2 False 0)) = FADE_DUR \<and>
   in_ss (plan_trim (example_job 10 40 120 2 False 0)) + in_t (plan_trim (example_job 10 40 120 2 False 0))
     = 40 + FADE_DUR \<and>
   in_ss (plan_trim (example_job (1 / 2) 119 120 2 False 0)) = 1 / 2 \<and>
   vfade_in_d (plan_trim (example_job (1 / 2) 119 120 2 False 0)) = 0 \<and>
   vfade_out_d (plan_trim (example_job (1 / 2) 119 120 2 False 0)) = 0"
  using C2_trim_padding [of "example_job 10 40 120 2 False 0"]
        C2_trim_padding [of "example_job (1 / 2) 119 120 2 False 0"]
  by (simp add: example_job_def FADE_DUR_def EPS_def)

text \<open>
  At a start of 1.495 s, which is below FADE_DUR, the seek start is padded to -0.005 s
  and the fade-in is kept; at an end of 119.5 s in a source of 120 s the seek window
  ends at 120 s, not at the user end.
\<close>

theorem C2_boundary_counterexample:
  "\<not> disable_fades (example_job (1495 / 1000) (1195 / 10) 120 2 False 0) \<and>
   start_time (example_job (1495 / 1000) (1195 / 10) 120 2 False 0) < FADE_DUR \<and>
   in_ss (plan_trim (example_job (1495 / 1000) (1195 / 10) 120 2 False 0)) = - (5 / 1000) \<and>
   vfade_in_d (plan_trim (example_job (1495 / 1000) (1195 / 10) 120 2 False 0)) = FADE_DUR \<and>
   end_time (example_job (1495 / 1000) (1195 / 10) 120 2 False 0) > 120 - FADE_DUR \<and>
   in_ss (plan_trim (example_job (1495 / 1000) (1195 / 10) 120 2 False 0))
     + in_t (plan_trim (example_job (1495 / 1000) (1195 / 10) 120 2 False 0)) = 120"
  by (simp add: example_job_def plan_trim_def Let_def FADE_DUR_def EPS_def)

subsection \<open>Bitrate budget\<close>

text \<open>
  C3, as the code has it. When the size of the source is matched (tier 4, source size
  readable) the video bitrate is at least the floor of 300 kbps. In the tiers with a
  fixed size target no floor is applied: whenever a bitrate is derived, the effective
  duration is positive, the bits left for the video are not negative, and the bitrate is
  the integer part of video_bits / (1024 effective_duration), taken of the floating-point
  quotient (a relative tolerance of one part in 10^9); it is never negative. When the
  audio budget alone exceeds the target size, the job finishes with the failure "Video
  duration is too short for the target file size." before any progress is emitted or any
  encoder is started.
\<close>

theorem C3_bitrate_floor:
  "(keep_highest_res j \<and> getsize e \<noteq> None \<and> estimate_bitrate j e = Bitrate k \<longrightarrow> 300 \<le> k) \<and>
   (\<not> keep_highest_res j \<and> estimate_bitrate j e = Bitrate k \<longrightarrow>
      0 < effective_duration j \<and> 0 \<le> tiered_video_bits j \<and> 0 \<le> k \<and>
      truncation_of ((tiered_video_bits j / (1024 * effective_duration j) + 128) / 10 ^ 9)
        (tiered_video_bits j / (1024 * effective_duration j)) k) \<and>
   (\<not> keep_highest_res j \<and> speed_factor j \<noteq> 0 \<and> 0 < effective_duration j \<and>
      tiered_video_bits j < 0 \<longrightarrow>
      (\<exists>s. run j e = Some s \<and>
           finished s = [Failure ''Video duration is too short for the target file size.''] \<and>
           invoked s = [] \<and> progress s = []))"
proof -
  have floor: "300 \<le> k"
    if "keep_highest_res j \<and> getsize e \<noteq> None \<and> estimate_bitrate j e = Bitrate k"
    using that
    by (auto simp: estimate_bitrate_def match_source_estimate_def Let_def split: if_splits)
  have tiered: "0 < effective_duration j \<and> 0 \<le> tiered_video_bits j \<and> 0 \<le> k \<and>
      truncation_of ((tiered_video_bits j / (1024 * effective_duration j) + 128) / 10 ^ 9)
        (tiered_video_bits j / (1024 * effective_duration j)) k"
    if a: "\<not> keep_highest_res j \<and> estimate_bitrate j e = Bitrate k"
  proof -
    define eff where "eff = effective_duration j"
    define vb where "vb = tiered_video_bits j"
    define q where "q = vb / (1024 * eff)"
    from a have "tiered_estimate j eff = Bitrate k" by (auto simp: estimate_bitrate_def eff_def)
    then have h: "0 < eff" "0 \<le> vb" "k = py_int q"
      by (auto simp: tiered_estimate_def Let_def vb_def q_def tiered_video_bits_def eff_def
          split: if_splits)
    then have q0: "0 \<le> q" by (simp add: q_def)
    with h(3) have k: "k = \<lfloor>q\<rfloor>" by (simp add: py_int_def)
    have tol: "0 \<le> (q + 128) / 10 ^ 9" using q0 by simp
    have "truncation_of ((q + 128) / 10 ^ 9) q k"
      unfolding k using tol by (rule truncation_of_floor)
    moreover have "0 \<le> k" unfolding k using q0 by simp
    ultimately show ?thesis
      using h(1,2) unfolding q_def vb_def eff_def by blast
  qed
  have short: "\<exists>s. run j e = Some s \<and>
           finished s = [Failure ''Video duration is too short for the target file size.''] \<and>
           invoked s = [] \<and> progress s = []"
    if a: "\<not> keep_highest_res j \<and> speed_factor j \<noteq> 0 \<and> 0 < effective_duration j \<and>
      tiered_video_bits j < 0"
  proof -
    from a have "estimate_bitrate j e
        = Finished ''Video duration is too short for the target file size.''"
      by (simp add: estimate_bitrate_def tiered_estimate_def tiered_video_bits_def Let_def)
    with a have "run j e = Some (run_finally (emit_finished
        (Failure ''Video duration is too short for the target file size.'') (initial_state e)))"
      by (simp add: run_def run_try_def)
    then show ?thesis by (simp add: emit_finished_def initial_state_def)
  qed
  from floor tiered short show ?thesis by blast
qed

theorem C3_bitrate_floor_witness:
  "estimate_bitrate (example_job 10 40 120 4 True 0) (example_env (ok_proc [])) = Bitrate 12892 \<and>
   estimate_bitrate (example_job 10 41 120 2 True 0) (example_env (ok_proc [])) = Bitrate 11763 \<and>
   tiered_video_bits (example_job 10 41 120 2 True 0)
     / (1024 * effective_duration (example_job 10 41 120 2 True 0)) = 364672 / 31 \<and>
   truncation_of ((364672 / 31 + 128) / 10 ^ 9) (364672 / 31) 11763 \<and>
   tiered_video_bits (example_job 0 1000 1200 0 True 0) < 0 \<and>
   map_option finished (run (example_job 0 1000 1200 0 True 0) (example_env (ok_proc [])))
     = Some [Failure ''Video duration is too short for the target file size.''] \<and>
   map_option invoked (run (example_job 0 1000 1200 0 True 0) (example_env (ok_proc []))) = Some []"
proof -
  have a: "estimate_bitrate (example_job 10 40 120 4 True 0) (example_env (ok_proc [])) = Bitrate 12892"
    by (simp add: example_job_def example_env_def estimate_defs duration_defs)
  have b: "estimate_bitrate (example_job 10 41 120 2 True 0) (example_env (ok_proc [])) = Bitrate 11763"
    by (simp add: example_job_def example_env_def estimate_defs duration_defs)
  have q: "tiered_video_bits (example_job 10 41 120 2 True 0)
     / (1024 * effective_duration (example_job 10 41 120 2 True 0)) = 364672 / 31"
    by (simp add: example_job_def tiered_video_bits_def tier_target_mb_def duration_defs)
  have c: "\<not> keep_highest_res (example_job 0 1000 1200 0 True 0)"
    "speed_factor (example_job 0 1000 1200 0 True 0) \<noteq> 0"
    "0 < effective_duration (example_job 0 1000 1200 0 True 0)"
    "tiered_video_bits (example_job 0 1000 1200 0 True 0) < 0"
    by (simp_all add: example_job_def tiered_video_bits_def tier_target_mb_def duration_defs)
  from C3_bitrate_floor [of "example_job 0 1000 1200 0 True 0" "example_env (ok_proc [])" 0] c
  have d: "map_option finished (run (example_job 0 1000 1200 0 True 0) (example_env (ok_proc [])))
     = Some [Failure ''Video duration is too short for the target file size.''] \<and>
   map_option invoked (run (example_job 0 1000 1200 0 True 0) (example_env (ok_proc []))) = Some []"
    by auto
  have k: "\<not> keep_highest_res (example_job 10 41 120 2 True 0)"
    "keep_highest_res (example_job 10 40 120 4 True 0)"
    "getsize (example_env (ok_proc [])) \<noteq> None"
    by (simp_all add: example_job_def example_env_def)
  from C3_bitrate_floor [of "example_job 10 41 120 2 True 0" "example_env (ok_proc [])" 11763] b k(1)
  have t: "truncation_of ((364672 / 31 + 128) / 10 ^ 9) (364672 / 31) 11763"
    unfolding q by blast
  from C3_bitrate_floor [of "example_job 10 40 120 4 True 0" "example_env (ok_proc [])" 12892] a k(2,3)
  have "(300::int) \<le> 12892" by blast
  with a b q t c(4) d show ?thesis by simp
qed

text \<open>
  Tier 0 (15 MB) with a clip of 600 s: the budget leaves 76 kbps for the video, below
  the floor, and the job goes on.
\<close>

theorem C3_no_floor_counterexample:
  "\<not> keep_highest_res (example_job 0 600 1200 0 True 0) \<and>
   estimate_bitrate (example_job 0 600 1200 0 True 0) (example_env (ok_proc [])) = Bitrate 76 \<and>
   \<not> (300::int) \<le> 76"
  by (simp add: example_job_def example_env_def estimate_defs duration_defs)

subsection \<open>Progress of the CORE stage\<close>

text \<open>
  C5, as the code has it. In a run that starts the CORE stage of a clip of positive
  duration, the progress values are 0, then one value for every parsed timestamp of the
  encoder, then only the values 95, 99 and 100 of the later steps. The value for a
  timestamp is never negative and is the integer part of
  min(100 weight, (elapsed / coreDuration) 100 weight), clamped below at 0, taken of the
  floating-point product (a tolerance of 10^-6). The weight is 0.8 whenever an INTRO
  stage follows, and 1.0 whenever the job's intro still duration is not positive.
\<close>

theorem C5_core_progress:
  assumes "0 < speed_factor j" and "0 < duration_corrected j"
    and "estimate_bitrate j e = Bitrate k" and "filter_exn e = None" and "output_exn e = None"
    and "popen_core e = Some p"
  shows "\<exists>s vs rest. run j e = Some s \<and> progress s = 0 # vs @ rest \<and>
           length vs = length (timestamps (out_lines p)) \<and>
           (\<forall>v\<in>set vs. 0 \<le> v) \<and>
           (\<forall>v\<in>set rest. v = 95 \<or> v = 99 \<or> v = 100) \<and>
           (\<not> skip_intro j \<longrightarrow>
              (\<forall>i<length vs. truncation_of (1 / 10 ^ 6)
                 (max 0 (spec_progress (8 / 10) (timestamps (out_lines p) ! i) (duration_corrected j)))
                 (vs ! i))) \<and>
           (intro_still_sec j \<le> 0 \<longrightarrow>
              (\<forall>i<length vs. truncation_of (1 / 10 ^ 6)
                 (max 0 (spec_progress 1 (timestamps (out_lines p) ! i) (duration_corrected j)))
                 (vs ! i)))"
proof -
  define w where "w = core_progress_weight j"
  define d where "d = duration_corrected j"
  define ts where "ts = timestamps (out_lines p)"
  define vs where "vs = map (core_progress w d) ts"
  define s0 where "s0 = emit_progress 0 (initial_state e)"
  from audio_filter_chain_returns [OF assms(1)] obtain c where
    c: "audio_filter_chain (speed_factor j) = Some c" by blast
  have t: "run_try j e (initial_state e) = Some (run_core j e s0)"
    using assms(1,3-5) c by (simp add: run_try_def s0_def)
  then have r: "run j e = Some (run_finally (run_core j e s0))" by (simp add: run_def)
  have out: "core_output e = out_lines p" using assms(6) by (simp add: core_output_def)
  have em: "core_emits j (core_output e) = vs"
    using assms(2) by (simp add: core_emits_def out vs_def w_def d_def ts_def)
  from run_core_summary [of j e s0] obtain Y r' where
    h: "progress (run_core j e s0) = progress s0 @ core_emits j (core_output e) @ Y @ final_mark r'"
       "r' = Success OutputFile \<or> (\<exists>msg. r' = Failure msg)"
       "Y = [] \<or> \<not> skip_intro j \<and> (\<exists>n m. Y = replicate n 95 @ replicate m 99)"
    by blast
  define rest where "rest = Y @ final_mark r'"
  have p: "progress (run_finally (run_core j e s0)) = 0 # vs @ rest"
    using h(1) by (simp add: em rest_def s0_def emit_progress_def initial_state_def)
  have rest: "\<forall>v\<in>set rest. v = 95 \<or> v = 99 \<or> v = 100"
    using h(2,3) by (auto simp: rest_def final_mark_def)
  have len: "length vs = length (timestamps (out_lines p))" by (simp add: vs_def ts_def)
  have nonneg: "\<forall>v\<in>set vs. 0 \<le> v" by (auto simp: vs_def core_progress_lower)
  have band: "truncation_of (1 / 10 ^ 6) (max 0 (spec_progress w (ts ! i) d)) (vs ! i)"
    if "i < length vs" for i
  proof -
    from that have "vs ! i = \<lfloor>max 0 (spec_progress w (ts ! i) d)\<rfloor>"
      by (simp add: vs_def core_progress_alt spec_progress_def)
    then show ?thesis by (simp add: truncation_of_floor)
  qed
  have w8: "w = 8 / 10" if "\<not> skip_intro j"
    using that unfolding w_def by (rule intro_follows_weight)
  have w1: "w = 1" if "intro_still_sec j \<le> 0"
    using that by (simp add: w_def core_progress_weight_def)
  have b8: "\<forall>i<length vs. truncation_of (1 / 10 ^ 6)
      (max 0 (spec_progress (8 / 10) (timestamps (out_lines p) ! i) (duration_corrected j))) (vs ! i)"
    if "\<not> skip_intro j"
    using band unfolding w8 [OF that] ts_def d_def by blast
  have b1: "\<forall>i<length vs. truncation_of (1 / 10 ^ 6)
      (max 0 (spec_progress 1 (timestamps (out_lines p) ! i) (duration_corrected j))) (vs ! i)"
    if "intro_still_sec j \<le> 0"
    using band unfolding w1 [OF that] ts_def d_def by blast
  show ?thesis
    by (rule exI [of _ "run_finally (run_core j e s0)"], rule exI [of _ vs], rule exI [of _ rest])
       (use r p len nonneg rest b8 b1 in blast)
qed

theorem C5_core_progress_witness:
  "\<not> skip_intro (example_job 10 40 120 2 False 2) \<and>
   duration_corrected (example_job 10 40 120 2 False 2) = 33 \<and>
   map_option progress
     (run (example_job 10 40 120 2 False 2) (example_env (ok_proc [None, Some 11, Some 40])))
     = Some [0, 26, 80, 95, 95, 99, 100] \<and>
   truncation_of (1 / 10 ^ 6) (max 0 (spec_progress (8 / 10) 11 33)) 26 \<and>
   truncation_of (1 / 10 ^ 6) (max 0 (spec_progress (8 / 10) 40 33)) 80 \<and>
   intro_still_sec (example_job 10 40 120 2 True 0) \<le> 0 \<and>
   map_option progress
     (run (example_job 10 40 120 2 True 0) (example_env (ok_proc [None, Some 11, Some 40])))
     = Some [0, 36, 100, 100] \<and>
   truncation_of (1 / 10 ^ 6) (max 0 (spec_progress 1 11 30)) 36"
proof -
  let ?e = "example_env (ok_proc [None, Some 11, Some 40])"
  have d: "duration_corrected (example_job 10 40 120 2 False 2) = 33"
    "duration_corrected (example_job 10 40 120 2 True 0) = 30"
    by (simp_all add: example_job_def duration_defs)
  have sk: "\<not> skip_intro (example_job 10 40 120 2 False 2)"
    "intro_still_sec (example_job 10 40 120 2 True 0) \<le> 0"
    by (simp_all add: example_job_def skip_intro_def)
  have est: "estimate_bitrate (example_job 10 40 120 2 False 2) ?e = Bitrate 10404"
    "estimate_bitrate (example_job 10 40 120 2 True 0) ?e = Bitrate 12160"
    by (simp_all add: example_job_def example_env_def estimate_defs duration_defs)
  have env: "filter_exn ?e = None" "output_exn ?e = None"
    "popen_core ?e = Some (ok_proc [None, Some 11, Some 40])"
    "timestamps (out_lines (ok_proc [None, Some 11, Some 40])) = [11, 40]"
    by (simp_all add: example_env_def ok_proc_def)
  have sp: "0 < speed_factor (example_job 10 40 120 2 False 2)"
    "0 < speed_factor (example_job 10 40 120 2 True 0)"
    by (simp_all add: example_job_def)
  have p1: "map_option progress (run (example_job 10 40 120 2 False 2) ?e)
      = Some [0, 26, 80, 95, 95, 99, 100]"
    by (simp add: run_defs pipeline_defs estimate_defs duration_defs)
  have p2: "map_option progress (run (example_job 10 40 120 2 True 0) ?e) = Some [0, 36, 100, 100]"
    by (simp add: run_defs pipeline_defs estimate_defs duration_defs)
  have b: "truncation_of (1 / 10 ^ 6) (max 0 (spec_progress (8 / 10) 11 33)) 26"
    "truncation_of (1 / 10 ^ 6) (max 0 (spec_progress (8 / 10) 40 33)) 80"
    "truncation_of (1 / 10 ^ 6) (max 0 (spec_progress 1 11 30)) 36"
    by (simp_all add: truncation_of_def spec_progress_def)
  from C5_core_progress [OF sp(1) _ est(1) env(1,2,3)] d(1)
  have "\<exists>s. run (example_job 10 40 120 2 False 2) ?e = Some s" by auto
  moreover from C5_core_progress [OF sp(2) _ est(2) env(1,2,3)] d(2)
  have "\<exists>s. run (example_job 10 40 120 2 True 0) ?e = Some s" by auto
  ultimately show ?thesis using sk d(1) p1 p2 b by simp
qed

text \<open>
  Without an intro the weight is 1.0, and one second into a clip of 3 s the value
  emitted is 33, not 33.33: the emitted value is not the value of the formula.
\<close>

theorem C5_truncation_counterexample:
  "skip_intro (example_job 10 13 120 2 True 0) \<and>
   core_progress_weight (example_job 10 13 120 2 True 0) = 1 \<and>
   duration_corrected (example_job 10 13 120 2 True 0) = 3 \<and>
   map_option progress (run (example_job 10 13 120 2 True 0) (example_env (ok_proc [Some 1])))
     = Some [0, 33, 100] \<and>
   real_of_int 33 \<noteq> spec_progress 1 1 3"
  by (simp add: run_defs pipeline_defs estimate_defs duration_defs spec_progress_def)

subsection \<open>The intro still at construction\<close>

text \<open>
  C10. A job constructed without the from-midpoint flag, or with a still of non-positive
  length, has an effective still length of 0, and no run of it starts an INTRO or a
  CONCAT stage, whatever length the caller supplied.
\<close>

theorem C10_no_intro_without_midpoint:
  assumes "init a = Inr j" and "\<not> arg_intro_from_midpoint a \<or> arg_intro_still_sec a \<le> 0"
  shows "intro_still_sec j = 0 \<and>
         (\<forall>e s. run j e = Some s \<longrightarrow> INTRO \<notin> set (invoked s) \<and> CONCAT \<notin> set (invoked s))"
proof -
  from assms have z: "intro_still_sec j = 0"
    by (auto simp: init_def effective_intro_still_sec_def split: if_splits)
  then have skip: "skip_intro j" by (simp add: skip_intro_def)
  have "INTRO \<notin> set (invoked s) \<and> CONCAT \<notin> set (invoked s)" if "run j e = Some s" for e s
  proof -
    from that obtain s' where t: "run_try j e (initial_state e) = Some s'" and s: "s = run_finally s'"
      by (auto simp: run_def)
    from run_try_skip_invoked [OF skip t] have "invoked s' = [] \<or> invoked s' = [CORE]"
      by (simp add: initial_state_def)
    with s show ?thesis by auto
  qed
  with z show ?thesis by blast
qed


theorem C10_no_intro_without_midpoint_witness:
  "\<exists>j. init ((tier_args 2) \<lparr> arg_intro_still_sec := 5 \<rparr>) = Inr j \<and>
        \<not> arg_intro_from_midpoint ((tier_args 2) \<lparr> arg_intro_still_sec := 5 \<rparr>) \<and>
        intro_still_sec j = 0 \<and>
        map_option invoked (run j (example_env (ok_proc [Some 10]))) = Some [CORE]"
proof -
  define j where "j = (example_job 10 40 120 2 False 0) \<lparr> intro_from_midpoint := False \<rparr>"
  have i: "init ((tier_args 2) \<lparr> arg_intro_still_sec := 5 \<rparr>) = Inr j"
    by (simp add: init_def tier_args_def j_def example_job_def effective_intro_still_sec_def)
  have m: "\<not> arg_intro_from_midpoint ((tier_args 2) \<lparr> arg_intro_still_sec := 5 \<rparr>)"
    by (simp add: tier_args_def)
  have r: "map_option invoked (run j (example_env (ok_proc [Some 10]))) = Some [CORE]"
    by (simp add: j_def run_defs pipeline_defs estimate_defs duration_defs)
  from C10_no_intro_without_midpoint [OF i] m have "intro_still_sec j = 0" by simp
  with i m r show ?thesis by blast
qed


subsection \<open>Zero duration\<close>

text \<open>
  C4, as the code has it. The test is on the effective duration, the clip duration
  (clamped at 0, never raised to a positive value) plus the length of the intro still
  counted for the size. When it is not positive, in a tier with a fixed size target or
  when the size of the source can be read, the run emits no progress, starts no encoder
  and finishes with the failure "Selected video duration is zero.".
\<close>

theorem C4_zero_duration:
  assumes "effective_duration j \<le> 0" and "speed_factor j \<noteq> 0"
    and "\<not> keep_highest_res j \<or> getsize e \<noteq> None"
  shows "duration_corrected j = 0 \<and>
         (\<exists>s. run j e = Some s \<and> finished s = [Failure ''Selected video duration is zero.''] \<and>
              invoked s = [] \<and> progress s = [])"
proof -
  have "0 \<le> duration_corrected j" "0 \<le> intro_len_for_size j"
    by (simp_all add: duration_corrected_def intro_len_for_size_def)
  with assms(1) have d: "duration_corrected j = 0" by (simp add: effective_duration_def)
  have "estimate_bitrate j e = Finished ''Selected video duration is zero.''"
    using assms(1,3)
    by (auto simp: estimate_bitrate_def tiered_estimate_def match_source_estimate_def Let_def)
  then have "run j e = Some (run_finally (emit_finished (Failure ''Selected video duration is zero.'')
      (initial_state e)))"
    using assms(2) by (simp add: run_def run_try_def)
  then show ?thesis using d by (simp add: emit_finished_def initial_state_def)
qed

theorem C4_zero_duration_witness:
  "effective_duration (example_job 10 10 120 2 True 0) \<le> 0 \<and>
   map_option finished (run (example_job 10 10 120 2 True 0) (example_env (ok_proc [])))
     = Some [Failure ''Selected video duration is zero.''] \<and>
   map_option invoked (run (example_job 10 10 120 2 True 0) (example_env (ok_proc []))) = Some []"
proof -
  have a: "effective_duration (example_job 10 10 120 2 True 0) \<le> 0"
    by (simp add: example_job_def duration_defs)
  have b: "speed_factor (example_job 10 10 120 2 True 0) \<noteq> 0"
    "\<not> keep_highest_res (example_job 10 10 120 2 True 0)"
    by (simp_all add: example_job_def)
  from C4_zero_duration [OF a b(1), of "example_env (ok_proc [])"] b(2) a show ?thesis by auto
qed

text \<open>
  A clip of duration zero (start 20 s and end 30 s in a source of 10 s) with an intro
  still of 2 s has an effective duration of 2 s: a bitrate is derived and all three
  stages run.
\<close>

theorem C4_intro_counterexample:
  "output_clip_duration (speed_correct (speed_factor (example_job 20 30 10 2 False 2))
      (plan_trim (example_job 20 30 10 2 False 2))) = 0 \<and>
   duration_corrected (example_job 20 30 10 2 False 2) = 0 \<and>
   estimate_bitrate (example_job 20 30 10 2 False 2) (example_env (ok_proc [])) = Bitrate 184192 \<and>
   map_option invoked (run (example_job 20 30 10 2 False 2) (example_env (ok_proc [])))
     = Some [CORE, INTRO, CONCAT] \<and>
   map_option finished (run (example_job 20 30 10 2 False 2) (example_env (ok_proc [])))
     = Some [Success OutputFile]"
  by (simp add: run_defs pipeline_defs estimate_defs duration_defs)


subsection \<open>Delivery of the core file\<close>

text \<open>
  C7, as the code has it. When fades are disabled or no positive intro still was
  requested, a run whose CORE stage succeeds starts no other stage and moves the core
  file to the output path: if the move succeeds the output is in place, the core file
  is gone, the last progress value is 100 and the job succeeds; if the move raises, the
  job ends with the failure "Failed to finalize output file.".
\<close>

theorem C7_core_only:
  assumes "disable_fades j \<or> intro_still_sec j \<le> 0"
    and "0 < speed_factor j" and "estimate_bitrate j e = Bitrate k"
    and "filter_exn e = None" and "output_exn e = None"
    and "popen_core e = Some p" and "returncode p = 0" and "writes_output p"
  shows "\<exists>s. run j e = Some s \<and> invoked s = [CORE] \<and>
           (if move_ok e
            then finished s = [Success OutputFile] \<and> OutputFile \<in> fs s \<and> CoreTmp \<notin> fs s \<and>
                 last (progress s) = 100
            else finished s = [Failure ''Failed to finalize output file.''])"
proof -
  from assms(1) have skip: "skip_intro j" by (auto simp: skip_intro_def)
  from audio_filter_chain_returns [OF assms(2)] obtain c where
    c: "audio_filter_chain (speed_factor j) = Some c" by blast
  have t: "run_try j e (initial_state e) = Some (run_core j e (emit_progress 0 (initial_state e)))"
    using assms(2-5) c by (simp add: run_try_def)
  define s1 where "s1 = run_core j e (emit_progress 0 (initial_state e))"
  have i: "invoked s1 = [CORE]"
    using skip assms(6-8)
    by (simp add: s1_def pipeline_defs initial_state_def)
  have ok: "finished s1 = [Success OutputFile] \<and> OutputFile \<in> fs s1 \<and> CoreTmp \<notin> fs s1 \<and>
            last (progress s1) = 100 \<and> core_path s1 = None \<and> intro_path s1 = None \<and>
            concat_path s1 = None" if "move_ok e"
    using that skip assms(6-8)
    by (simp add: s1_def pipeline_defs initial_state_def)
  have ko: "finished s1 = [Failure ''Failed to finalize output file.'']" if "\<not> move_ok e"
    using that skip assms(6-8)
    by (simp add: s1_def pipeline_defs initial_state_def)
  have r: "run j e = Some (run_finally s1)" using t by (simp add: run_def s1_def)
  have "OutputFile \<in> fs (run_finally s1)" if "move_ok e"
    using ok [OF that] by (intro run_finally_keeps) simp_all
  moreover have "CoreTmp \<notin> fs (run_finally s1)" if "move_ok e"
    using ok [OF that] by (simp add: run_finally_def)
  ultimately show ?thesis using r i ok ko by simp
qed

theorem C7_core_only_witness:
  "map_option invoked (run (example_job 10 40 120 2 True 2) (example_env (ok_proc [Some 10])))
     = Some [CORE] \<and>
   map_option finished (run (example_job 10 40 120 2 True 2) (example_env (ok_proc [Some 10])))
     = Some [Success OutputFile] \<and>
   map_option progress (run (example_job 10 40 120 2 True 2) (example_env (ok_proc [Some 10])))
     = Some [0, 26, 100]"
proof -
  have e: "estimate_bitrate (example_job 10 40 120 2 True 2) (example_env (ok_proc [Some 10]))
      = Bitrate 12160"
    by (simp add: example_job_def example_env_def estimate_defs duration_defs)
  have p: "map_option progress (run (example_job 10 40 120 2 True 2) (example_env (ok_proc [Some 10])))
     = Some [0, 26, 100]"
    by (simp add: run_defs pipeline_defs estimate_defs duration_defs py_int_def)
  have h: "disable_fades (example_job 10 40 120 2 True 2)"
    "0 < speed_factor (example_job 10 40 120 2 True 2)"
    "filter_exn (example_env (ok_proc [Some 10])) = None"
    "output_exn (example_env (ok_proc [Some 10])) = None"
    "popen_core (example_env (ok_proc [Some 10])) = Some (ok_proc [Some 10])"
    "returncode (ok_proc [Some 10]) = 0" "writes_output (ok_proc [Some 10])"
    "move_ok (example_env (ok_proc [Some 10]))"
    by (simp_all add: example_job_def example_env_def ok_proc_def)
  from C7_core_only [OF disjI1 [OF h(1)] h(2) e h(3-7)] h(8) obtain s where
    "run (example_job 10 40 120 2 True 2) (example_env (ok_proc [Some 10])) = Some s"
    "invoked s = [CORE]" "finished s = [Success OutputFile]"
    by auto
  with p show ?thesis by simp
qed

text \<open>
  With fades disabled and a successful CORE stage, a failing move ends the job with a
  failure.
\<close>

theorem C7_move_failure_counterexample:
  "disable_fades (example_job 10 40 120 2 True 0) \<and>
   map_option invoked
     (run (example_job 10 40 120 2 True 0) ((example_env (ok_proc [Some 10])) \<lparr> move_ok := False \<rparr>))
     = Some [CORE] \<and>
   map_option finished
     (run (example_job 10 40 120 2 True 0) ((example_env (ok_proc [Some 10])) \<lparr> move_ok := False \<rparr>))
     = Some [Failure ''Failed to finalize output file.'']"
  by (simp add: run_defs pipeline_defs estimate_defs duration_defs)

subsection \<open>Cleanup\<close>

text \<open>
  C1 says that every temporary file the job created is deleted before the job exits,
  the concat list in particular. The code does not do this: the list is written to
  \<^verbatim>\<open>concat_list_path\<close>, while the cleanup deletes \<^verbatim>\<open>concat_path\<close>, which is still
  \<open>None\<close>. Every run that starts the CONCAT stage ends with the concat list on disk.
\<close>

theorem C1_concat_list_left_behind:
  assumes "run j e = Some s" and "CONCAT \<in> set (invoked s)"
  shows "ConcatListTmp \<in> fs s"
proof -
  from assms(1) obtain s' where t: "run_try j e (initial_state e) = Some s'" and s: "s = run_finally s'"
    by (auto simp: run_def)
  from assms(2) s have "CONCAT \<in> set (invoked s')" by simp
  from run_try_list [OF t this] show ?thesis
    unfolding s by (intro run_finally_keeps) simp_all
qed

theorem C1_concat_list_left_behind_witness:
  "ConcatListTmp \<notin> files_before (example_env (ok_proc [Some 10])) \<and>
   map_option finished (run (example_job 10 40 120 2 False 2) (example_env (ok_proc [Some 10])))
     = Some [Success OutputFile] \<and>
   map_option invoked (run (example_job 10 40 120 2 False 2) (example_env (ok_proc [Some 10])))
     = Some [CORE, INTRO, CONCAT] \<and>
   map_option fs (run (example_job 10 40 120 2 False 2) (example_env (ok_proc [Some 10])))
     = Some {ConcatListTmp, OutputFile}"
proof -
  have a: "map_option finished (run (example_job 10 40 120 2 False 2) (example_env (ok_proc [Some 10])))
     = Some [Success OutputFile]"
    by (simp add: run_defs pipeline_defs estimate_defs duration_defs)
  have b: "map_option invoked (run (example_job 10 40 120 2 False 2) (example_env (ok_proc [Some 10])))
     = Some [CORE, INTRO, CONCAT]"
    by (simp add: run_defs pipeline_defs estimate_defs duration_defs)
  have c: "map_option fs (run (example_job 10 40 120 2 False 2) (example_env (ok_proc [Some 10])))
     = Some {ConcatListTmp, OutputFile}"
    by (auto simp add: run_defs pipeline_defs estimate_defs duration_defs)
  from b obtain s where
    s: "run (example_job 10 40 120 2 False 2) (example_env (ok_proc [Some 10])) = Some s"
       "invoked s = [CORE, INTRO, CONCAT]"
    by auto
  from C1_concat_list_left_behind [OF s(1)] s(2) have "ConcatListTmp \<in> fs s" by simp
  with a b c show ?thesis by (simp add: example_env_def)
qed

subsection \<open>The sequence of progress values\<close>

text \<open>
  C9, as the code has it. A job with a positive speed factor returns with exactly one
  result. Its progress values lie in [0, 100]; they are non-decreasing when the
  timestamps the encoder reports are non-decreasing; a successful job emits 100 last; a
  job that fails has emitted 100 only if the CORE stage ran with weight 1.0 and reported
  a timestamp that reached the clip duration.
\<close>

theorem C9_progress:
  assumes "0 < speed_factor j"
  shows "\<exists>s r. run j e = Some s \<and> finished s = [r] \<and>
           (\<forall>v\<in>set (progress s). 0 \<le> v \<and> v \<le> 100) \<and>
           (sorted (timestamps (core_output e)) \<longrightarrow> sorted (progress s)) \<and>
           (r = Success OutputFile \<longrightarrow> progress s \<noteq> [] \<and> last (progress s) = 100) \<and>
           (r \<noteq> Success OutputFile \<and> 100 \<in> set (progress s) \<longrightarrow>
              core_progress_weight j = 1 \<and>
              (\<exists>t\<in>set (timestamps (core_output e)). duration_corrected j \<le> t))"
proof -
  from run_try_returns [OF assms] obtain s' where t: "run_try j e (initial_state e) = Some s'"
    by blast
  then have r: "run j e = Some (run_finally s')" by (simp add: run_def)
  from run_try_summary [OF t] obtain r where
    f: "finished s' = [r]" and rr: "r = Success OutputFile \<or> (\<exists>msg. r = Failure msg)"
    and p: "progress s' = [] \<and> (\<exists>msg. r = Failure msg) \<or>
            (\<exists>Y. progress s' = [0] @ core_emits j (core_output e) @ Y @ final_mark r \<and>
                 (Y = [] \<or> \<not> skip_intro j \<and> (\<exists>n m. Y = replicate n 95 @ replicate m 99)))"
    by blast
  define E where "E = core_emits j (core_output e)"
  have props: "(\<forall>v\<in>set (progress s'). 0 \<le> v \<and> v \<le> 100) \<and>
           (sorted (timestamps (core_output e)) \<longrightarrow> sorted (progress s')) \<and>
           (r = Success OutputFile \<longrightarrow> progress s' \<noteq> [] \<and> last (progress s') = 100) \<and>
           (r \<noteq> Success OutputFile \<and> 100 \<in> set (progress s') \<longrightarrow> 100 \<in> set E)"
  proof -
    from p consider (early) msg where "progress s' = []" "r = Failure msg"
      | (core) Y where "progress s' = [0] @ core_emits j (core_output e) @ Y @ final_mark r"
          "Y = [] \<or> \<not> skip_intro j \<and> (\<exists>n m. Y = replicate n 95 @ replicate m 99)"
      by blast
    then show ?thesis
    proof cases
      case early
      then show ?thesis by simp
    next
      case core
      note ps = core(1) and Y = core(2)
    have E1: "\<forall>v\<in>set E. 0 \<le> v \<and> v \<le> 100"
      using core_emits_range [of _ j "core_output e"] by (simp add: E_def)
    from Y obtain n m where
      Y': "Y = [] \<or> (\<forall>v\<in>set E. v \<le> 80) \<and> Y = replicate n 95 @ replicate m 99"
      using core_emits_range [of _ j "core_output e"] by (auto simp: E_def)
    have F: "final_mark r = [] \<or> final_mark r = [100]"
      using rr by (auto simp: final_mark_def)
    have ps': "progress s' = [0] @ E @ Y @ final_mark r" using ps by (simp add: E_def)
    have a: "\<forall>v\<in>set (progress s'). 0 \<le> v \<and> v \<le> 100"
      unfolding ps' using E1 Y' F by (rule progress_shape(1))
    have b: "sorted (progress s')" if "sorted (timestamps (core_output e))"
    proof -
      from that have "sorted E" unfolding E_def by (rule core_emits_sorted)
      with progress_shape(2) [OF E1 Y' F] show ?thesis unfolding ps' .
    qed
    have c: "progress s' \<noteq> [] \<and> last (progress s') = 100" if "r = Success OutputFile"
      using that by (simp add: ps' final_mark_def)
    have d: "100 \<in> set E" if "r \<noteq> Success OutputFile" "100 \<in> set (progress s')"
    proof -
      from that(1) rr have "final_mark r = []" by (auto simp: final_mark_def)
      with progress_shape(3) [OF E1 Y' F] that(2) show ?thesis unfolding ps' by blast
    qed
      from a b c d show ?thesis by blast
    qed
  qed
  have h: "core_progress_weight j = 1 \<and>
      (\<exists>t\<in>set (timestamps (core_output e)). duration_corrected j \<le> t)" if "100 \<in> set E"
    using that unfolding E_def by (rule core_emits_hundred)
  show ?thesis
    by (rule exI [of _ "run_finally s'"], rule exI [of _ r]) (use r f props h in simp)
qed

theorem C9_progress_witness:
  "0 < speed_factor (example_job 10 40 120 2 False 2) \<and>
   sorted (timestamps (core_output (example_env (ok_proc [Some 11, Some 40])))) \<and>
   map_option finished (run (example_job 10 40 120 2 False 2) (example_env (ok_proc [Some 11, Some 40])))
     = Some [Success OutputFile] \<and>
   map_option progress (run (example_job 10 40 120 2 False 2) (example_env (ok_proc [Some 11, Some 40])))
     = Some [0, 26, 80, 95, 95, 99, 100] \<and>
   (\<exists>s. run (example_job 10 40 120 2 False 2) (example_env (ok_proc [Some 11, Some 40])) = Some s \<and>
        sorted (progress s) \<and> last (progress s) = 100) \<and>
   map_option finished (run (example_job 10 40 120 2 True 0) (example_env failing_core))
     = Some [Failure ''Core encode failed (STEP 1/3).''] \<and>
   core_progress_weight (example_job 10 40 120 2 True 0) = 1 \<and>
   (\<exists>t\<in>set (timestamps (core_output (example_env failing_core))).
      duration_corrected (example_job 10 40 120 2 True 0) \<le> t)"
proof -
  have sp: "0 < speed_factor (example_job 10 40 120 2 False 2)"
    "0 < speed_factor (example_job 10 40 120 2 True 0)"
    by (simp_all add: example_job_def)
  have ts: "sorted (timestamps (core_output (example_env (ok_proc [Some 11, Some 40]))))"
    by (simp add: core_output_def example_env_def ok_proc_def)
  have f1: "map_option finished (run (example_job 10 40 120 2 False 2)
      (example_env (ok_proc [Some 11, Some 40]))) = Some [Success OutputFile]"
    by (simp add: run_defs pipeline_defs estimate_defs duration_defs)
  have p1: "map_option progress (run (example_job 10 40 120 2 False 2)
      (example_env (ok_proc [Some 11, Some 40]))) = Some [0, 26, 80, 95, 95, 99, 100]"
    by (simp add: run_defs pipeline_defs estimate_defs duration_defs)
  have f2: "map_option finished (run (example_job 10 40 120 2 True 0) (example_env failing_core))
     = Some [Failure ''Core encode failed (STEP 1/3).'']"
    by (simp add: run_defs pipeline_defs estimate_defs duration_defs failing_core_def)
  have p2: "map_option progress (run (example_job 10 40 120 2 True 0) (example_env failing_core))
     = Some [0, 100, 33]"
    by (simp add: run_defs pipeline_defs estimate_defs duration_defs failing_core_def)
  from C9_progress [OF sp(1), of "example_env (ok_proc [Some 11, Some 40])"] ts f1
  have a: "\<exists>s. run (example_job 10 40 120 2 False 2) (example_env (ok_proc [Some 11, Some 40])) = Some s \<and>
        sorted (progress s) \<and> last (progress s) = 100"
    by auto
  from C9_progress [OF sp(2), of "example_env failing_core"] f2 p2
  have b: "core_progress_weight (example_job 10 40 120 2 True 0) = 1 \<and>
     (\<exists>t\<in>set (timestamps (core_output (example_env failing_core))).
        duration_corrected (example_job 10 40 120 2 True 0) \<le> t)"
    by auto
  from sp(1) ts f1 p1 a f2 b show ?thesis by blast
qed

text \<open>
  A clip of 30 s without intro whose encoder reports 30 s, then 10 s, and exits with a
  non-zero code: the values are 0, 100, 33 and the job fails.
\<close>

theorem C9_hundred_before_failure_counterexample:
  "map_option progress (run (example_job 10 40 120 2 True 0) (example_env failing_core))
     = Some [0, 100, 33] \<and>
   map_option finished (run (example_job 10 40 120 2 True 0) (example_env failing_core))
     = Some [Failure ''Core encode failed (STEP 1/3).''] \<and>
   \<not> sorted [0, 100, 33 :: int]"
  by (simp add: run_defs pipeline_defs estimate_defs duration_defs failing_core_def)

end
